theory Spec2Isabelle
  imports Complex_Main
begin

section \<open>JavaScript values, as the billing parser sees them\<close>

text \<open>
  The XML parser returns an untyped tree: tag values are strings, numbers or booleans,
  nested tags are objects, repeated tags are arrays, and a tag that is not there reads as
  \<open>undefined\<close>. The extraction code probes this tree with property reads, optional
  chaining and the nullish-coalescing operator, so the tree is modelled as it is at run time.
  An object is an association list of its own properties.
\<close>

datatype jsval =
    Undefined
  | Null
  | Bool bool
  | Num real
  | Str string
  | Arr "jsval list"
  | Obj "(string \<times> jsval) list"

text \<open>
  An exception is a value: the \<open>TypeError\<close> of a property read on \<open>undefined\<close> or
  \<open>null\<close> (it carries the name that was read), the \<open>ReferenceError\<close> of an unbound
  identifier (it carries the identifier), and \<open>Error\<close> with its message.
\<close>

datatype js_error =
    TypeError string
  | ReferenceError string
  | Error string

fun message :: "js_error \<Rightarrow> string" where
  "message (TypeError k) = k"
| "message (ReferenceError k) = k"
| "message (Error m) = m"

definition andThen :: "js_error + 'a \<Rightarrow> ('a \<Rightarrow> js_error + 'b) \<Rightarrow> js_error + 'b" where
  "andThen r f = (case r of Inl e \<Rightarrow> Inl e | Inr v \<Rightarrow> f v)"

fun nullish :: "jsval \<Rightarrow> bool" where
  "nullish Undefined = True"
| "nullish Null = True"
| "nullish _ = False"

text \<open>Truthiness, as \<open>if (v)\<close>, \<open>!v\<close>, \<open>a || b\<close> and \<open>a && b\<close> test it.\<close>

fun truthy :: "jsval \<Rightarrow> bool" where
  "truthy Undefined = False"
| "truthy Null = False"
| "truthy (Bool b) = b"
| "truthy (Num n) = (n \<noteq> 0)"
| "truthy (Str s) = (s \<noteq> [])"
| "truthy (Arr _) = True"
| "truthy (Obj _) = True"

text \<open>
  \<open>v.k\<close>: a \<open>TypeError\<close> on \<open>undefined\<close> and \<open>null\<close>; the property of an object,
  \<open>undefined\<close> when it has none of that name; \<open>undefined\<close> on a primitive or an array
  (none of the names this program reads is a property of a string, a number or an array).
\<close>

fun getProp :: "jsval \<Rightarrow> string \<Rightarrow> js_error + jsval" where
  "getProp Undefined k = Inl (TypeError k)"
| "getProp Null k = Inl (TypeError k)"
| "getProp (Obj kvs) k = Inr (case map_of kvs k of None \<Rightarrow> Undefined | Some v \<Rightarrow> v)"
| "getProp _ k = Inr Undefined"

text \<open>
  \<open>v?.rest\<close>: when \<open>v\<close> is nullish the whole rest of the chain is skipped and the value
  is \<open>undefined\<close>; otherwise the rest is evaluated on \<open>v\<close>.
\<close>

definition opt_chain :: "jsval \<Rightarrow> (jsval \<Rightarrow> js_error + jsval) \<Rightarrow> js_error + jsval" where
  "opt_chain v rest = (if nullish v then Inr Undefined else rest v)"

text \<open>
  \<open>a ?? b\<close>: \<open>b\<close> is evaluated only when \<open>a\<close> is nullish, so an exception of \<open>b\<close>
  counts only then.
\<close>

definition coalesce :: "js_error + jsval \<Rightarrow> js_error + jsval \<Rightarrow> js_error + jsval" where
  "coalesce a b = (case a of Inl e \<Rightarrow> Inl e | Inr v \<Rightarrow> if nullish v then b else Inr v)"

subsection \<open>Strings\<close>

text \<open>\<open>s.includes(p)\<close>: \<open>p\<close> occurs in \<open>s\<close> as a contiguous run.\<close>

fun js_includes :: "string \<Rightarrow> string \<Rightarrow> bool" where
  "js_includes [] p = (p = [])"
| "js_includes (c # cs) p = (take (length p) (c # cs) = p \<or> js_includes cs p)"

text \<open>
  \<open>s.replace(p, r)\<close> with a string pattern: the first occurrence of \<open>p\<close> becomes
  \<open>r\<close> (neither replacement used by the program contains a \<open>$\<close> pattern).
\<close>

fun replace :: "string \<Rightarrow> string \<Rightarrow> string \<Rightarrow> string" where
  "replace [] p r = (if p = [] then r else [])"
| "replace (c # cs) p r =
     (if take (length p) (c # cs) = p then r @ drop (length p) (c # cs)
      else c # replace cs p r)"

text \<open>
  \<open>s.toLowerCase()\<close> on the ASCII letters. The three patterns the router looks for are
  ASCII, and no character outside ASCII lowers to a run that completes one of them.
\<close>

definition lower_char :: "char \<Rightarrow> char" where
  "lower_char c =
     (case map_of (zip ''ABCDEFGHIJKLMNOPQRSTUVWXYZ'' ''abcdefghijklmnopqrstuvwxyz'') c of
        None \<Rightarrow> c
      | Some l \<Rightarrow> l)"

definition toLowerCase :: "string \<Rightarrow> string" where
  "toLowerCase s = map lower_char s"

section \<open>The billing parser (parser.js)\<close>

record entity_data =
  nit :: jsval
  nombre :: jsval

record billing =
  id' :: jsval
  cufe :: jsval
  date :: jsval
  "value" :: jsval
  proveedor :: entity_data
  cliente :: entity_data

text \<open>\<open>#extractID(document, attachment)\<close>, lines 31 to 42.\<close>

definition extractID :: "jsval \<Rightarrow> jsval \<Rightarrow> js_error + jsval" where
  "extractID document attachment =
     coalesce (coalesce (coalesce (coalesce (coalesce (coalesce (coalesce
       (opt_chain attachment (\<lambda>a. getProp a ''ID''))
       (opt_chain attachment (\<lambda>a. andThen (getProp a ''Invoice'')
          (\<lambda>i. opt_chain i (\<lambda>i. getProp i ''ID'')))))
       (opt_chain attachment (\<lambda>a. andThen (getProp a ''CreditNote'')
          (\<lambda>c. opt_chain c (\<lambda>c. getProp c ''ID'')))))
       (andThen (getProp document ''ParentDocumentID'')
          (\<lambda>p. if p = Str ''null'' then Inr Null
                else coalesce (getProp document ''ParentDocumentID'') (Inr Null))))
       (getProp document ''AltID''))
       (andThen (getProp document ''ParentDocumentLineReference'')
          (\<lambda>l. opt_chain l (\<lambda>l. andThen (getProp l ''DocumentReference'')
             (\<lambda>d. getProp d ''ID'')))))
       (getProp document ''ID''))
       (Inr (Str ''''))"

text \<open>\<open>#extractCUFE(document)\<close>, lines 49 to 51.\<close>

definition extractCUFE :: "jsval \<Rightarrow> js_error + jsval" where
  "extractCUFE document =
     coalesce (coalesce
       (getProp document ''UUID'')
       (andThen (getProp document ''ParentDocumentLineReference'')
          (\<lambda>l. opt_chain l (\<lambda>l. andThen (getProp l ''DocumentReference'')
             (\<lambda>d. opt_chain d (\<lambda>d. getProp d ''UUID''))))))
       (Inr (Str ''''))"

text \<open>
  \<open>#extractEntityData(entity)\<close>, lines 58 to 63. The optional chain guards the entity
  only: \<open>entity?.PartyTaxScheme.CompanyID\<close> reads \<open>CompanyID\<close> off whatever
  \<open>PartyTaxScheme\<close> is.
\<close>

definition entity_field :: "jsval \<Rightarrow> string \<Rightarrow> js_error + jsval" where
  "entity_field entity k =
     coalesce (coalesce
       (opt_chain entity (\<lambda>e. andThen (getProp e ''PartyTaxScheme'') (\<lambda>t. getProp t k)))
       (opt_chain entity (\<lambda>e. andThen (getProp e ''PartyTaxScheme'') (\<lambda>t. getProp t k))))
       (Inr (Str ''''))"

definition extractEntityData :: "jsval \<Rightarrow> js_error + entity_data" where
  "extractEntityData entity =
     andThen (entity_field entity ''CompanyID'') (\<lambda>n.
     andThen (entity_field entity ''RegistrationName'') (\<lambda>m.
     Inr \<lparr>nit = n, nombre = m\<rparr>))"

text \<open>\<open>#extractValue(attachment)\<close>, lines 70 to 74.\<close>

definition extractValue :: "jsval \<Rightarrow> js_error + jsval" where
  "extractValue attachment =
     coalesce (coalesce
       (andThen (getProp attachment ''Invoice'')
          (\<lambda>i. opt_chain i (\<lambda>i. andThen (getProp i ''LegalMonetaryTotal'')
             (\<lambda>t. opt_chain t (\<lambda>t. getProp t ''PayableAmount'')))))
       (opt_chain attachment (\<lambda>a. andThen (getProp a ''LegalMonetaryTotal'')
          (\<lambda>t. opt_chain t (\<lambda>t. getProp t ''PayableAmount'')))))
       (Inr (Num 0))"

text \<open>
  \<open>#extractAttachment(document)\<close>, lines 81 to 85. Four unguarded property reads, then
  \<open>.replace\<close>, which only a string has, then the XML parser on the result. The XML
  parser is the library's: it is a parameter, \<open>xml_parse\<close>.
\<close>

definition extractAttachment ::
  "(string \<Rightarrow> js_error + jsval) \<Rightarrow> jsval \<Rightarrow> js_error + jsval" where
  "extractAttachment xml_parse document =
     andThen (getProp document ''Attachment'') (\<lambda>a.
     andThen (getProp a ''ExternalReference'') (\<lambda>x.
     andThen (getProp x ''Description'') (\<lambda>d.
     andThen (getProp d ''__cdata'') (\<lambda>c.
       case c of
         Str s \<Rightarrow> xml_parse (replace (replace s ''<![CDATA['' '''') '']]'' '''')
       | _ \<Rightarrow> Inl (TypeError ''replace'')))))"

text \<open>\<open>#extractBilling(document)\<close>, lines 92 to 103: the \<open>AttachedDocument\<close> path.\<close>

definition extractBilling ::
  "(string \<Rightarrow> js_error + jsval) \<Rightarrow> jsval \<Rightarrow> js_error + billing" where
  "extractBilling xml_parse document =
     andThen (extractAttachment xml_parse document) (\<lambda>attachment.
     andThen (extractID document attachment) (\<lambda>i.
     andThen (extractCUFE document) (\<lambda>c.
     andThen (getProp document ''IssueDate'') (\<lambda>d.
     andThen (extractValue attachment) (\<lambda>v.
     andThen (andThen
       (coalesce (getProp document ''SenderParty'')
          (andThen (getProp document ''AccountingSupplierParty'')
             (\<lambda>s. opt_chain s (\<lambda>s. getProp s ''Party''))))
       extractEntityData) (\<lambda>p.
     andThen (andThen
       (coalesce (getProp document ''ReceiverParty'')
          (andThen (getProp document ''AccountingCustomerParty'')
             (\<lambda>s. opt_chain s (\<lambda>s. getProp s ''Party''))))
       extractEntityData) (\<lambda>q.
     Inr \<lparr>id' = i, cufe = c, date = d, value = v, proveedor = p, cliente = q\<rparr>)))))))"

text \<open>
  \<open>#extractAttachmentBilling(document)\<close>, lines 110 to 121: the \<open>Invoice\<close> and
  \<open>CreditNote\<close> path. The embedded attachment is extracted first, whatever the document
  holds.
\<close>

definition extractAttachmentBilling ::
  "(string \<Rightarrow> js_error + jsval) \<Rightarrow> jsval \<Rightarrow> js_error + billing" where
  "extractAttachmentBilling xml_parse document =
     andThen (extractAttachment xml_parse document) (\<lambda>attachment.
     andThen (extractID document attachment) (\<lambda>i.
     andThen (getProp document ''UUID'') (\<lambda>c.
     andThen (getProp document ''IssueDate'') (\<lambda>d.
     andThen (extractValue document) (\<lambda>v.
     andThen (andThen
       (andThen (getProp document ''AccountingSupplierParty'') (\<lambda>s. getProp s ''Party''))
       extractEntityData) (\<lambda>p.
     andThen (andThen
       (andThen (getProp document ''AccountingCustomerParty'') (\<lambda>s. getProp s ''Party''))
       extractEntityData) (\<lambda>q.
     Inr \<lparr>id' = i, cufe = c, date = d, value = v, proveedor = p, cliente = q\<rparr>)))))))"

text \<open>
  \<open>#parse(path)\<close>, lines 128 to 136: the file is read and handed to the XML parser; a
  falsy result becomes \<open>null\<close>. The file system is a map from paths to contents, and
  reading a path that holds no file is rejected.
\<close>

definition parse_file ::
  "(string \<Rightarrow> js_error + jsval) \<Rightarrow> (string \<rightharpoonup> string) \<Rightarrow> string \<Rightarrow> js_error + jsval" where
  "parse_file xml_parse files path =
     (case files path of
        None \<Rightarrow> Inl (Error (''ENOENT: no such file or directory, open '' @ path))
      | Some content \<Rightarrow>
          andThen (xml_parse content) (\<lambda>data. if \<not> truthy data then Inr Null else Inr data))"

definition msg_unreadable :: string where
  "msg_unreadable = ''El XML no pudo ser leido''"

text \<open>The message of line 154; its accented letter is written as its UTF-8 bytes.\<close>

definition msg_no_data :: string where
  "msg_no_data = ''El XML no contiene datos v'' @ [CHR 0xC3, CHR 0xA1] @ ''lidos''"

definition msg_read_failed :: string where
  "msg_read_failed = ''Error al leer los datos de la factura''"

definition msg_no_id :: string where
  "msg_no_id = ''La factura no tiene un ID''"

text \<open>
  \<open>#parseXML\<close> from line 149 on, that is on the parsed tree: the two guards, then the
  dispatch on the variant inside \<open>try\<close>, whose \<open>catch\<close> replaces any exception of the
  extraction by one fixed error. \<open>None\<close> is the \<open>null\<close> of line 180.
\<close>

definition parseXML_tree ::
  "(string \<Rightarrow> js_error + jsval) \<Rightarrow> jsval \<Rightarrow> js_error + billing option" where
  "parseXML_tree xml_parse parsedXML =
     (if \<not> truthy parsedXML then Inl (Error msg_unreadable)
      else
        andThen (getProp parsedXML ''Invoice'') (\<lambda>inv.
        andThen (getProp parsedXML ''AttachedDocument'') (\<lambda>ad.
        andThen (getProp parsedXML ''CreditNote'') (\<lambda>cn.
          if \<not> (truthy inv \<or> truthy ad \<or> truthy cn) then Inl (Error msg_no_data)
          else
            (case
               (if truthy inv then map_sum (\<lambda>e. e) Some (extractAttachmentBilling xml_parse inv)
                else if truthy cn then map_sum (\<lambda>e. e) Some (extractAttachmentBilling xml_parse cn)
                else if truthy ad then map_sum (\<lambda>e. e) Some (extractBilling xml_parse ad)
                else Inr None)
             of
               Inl e \<Rightarrow> Inl (Error msg_read_failed)
             | Inr r \<Rightarrow> Inr r)))))"

text \<open>
  The \<open>fs.access(xmlPath, constants.R_OK)\<close> of line 145 is called and not awaited, and
  nothing handles its promise: when the path cannot be read the promise is rejected with
  this error and the rejection stays unhandled, which by default ends the process. What
  \<open>#parseXML\<close> returns does not depend on it.
\<close>

definition parseXML_unhandled_rejection :: "(string \<rightharpoonup> string) \<Rightarrow> string \<Rightarrow> js_error option" where
  "parseXML_unhandled_rejection files xmlPath =
     (case files xmlPath of
        None \<Rightarrow> Some (Error (''ENOENT: no such file or directory, access '' @ xmlPath))
      | Some _ \<Rightarrow> None)"

text \<open>\<open>#parseXML(xmlPath)\<close>, lines 144 to 181: the value it returns or the error it throws.\<close>

definition parseXML ::
  "(string \<Rightarrow> js_error + jsval) \<Rightarrow> (string \<rightharpoonup> string) \<Rightarrow> string \<Rightarrow> js_error + billing option" where
  "parseXML xml_parse files xmlPath =
     andThen (parse_file xml_parse files xmlPath) (parseXML_tree xml_parse)"

text \<open>
  \<open>parse(xmlPath)\<close>, lines 189 to 197: reading \<open>data.id\<close> off \<open>null\<close> is a
  \<open>TypeError\<close>; a falsy id is rejected.
\<close>

definition parse ::
  "(string \<Rightarrow> js_error + jsval) \<Rightarrow> (string \<rightharpoonup> string) \<Rightarrow> string \<Rightarrow> js_error + billing" where
  "parse xml_parse files xmlPath =
     andThen (parseXML xml_parse files xmlPath) (\<lambda>data.
       case data of
         None \<Rightarrow> Inl (TypeError ''id'')
       | Some b \<Rightarrow> if \<not> truthy (id' b) then Inl (Error msg_no_id) else Inr b)"

section \<open>The mail processor (processor.js)\<close>

text \<open>
  The processor acts on the world through its collaborators: the mail client, the file
  system, the injected billing parser, the external document builder, the logger and the
  console. Every such call is an event of a trace, in the order the code makes it; the
  files written so far are kept beside the trace. What a collaborator answers is not the
  processor's to decide, so the answers are the fields of an environment, and every
  theorem below holds for all of them. The collaborators are what the constructor of
  \<open>MailProcessor\<close> documents them to be: a mail client, a mailbox lock, a logger and a
  billing parser. The logger and the console do not raise.
\<close>

datatype event =
    ConsoleError string
  | LogInfo string
  | LogError string string
  | Download string string
  | Mkdir string
  | Mkdtemp string
  | WriteFile string string bool
  | Drain string
  | ParserParse string
  | Exec string string string
  | MessageMove string string
  | Rm string
  | Fetch
  | LockRelease
  | Logout
  | ProcessExit nat

record world =
  files :: "string \<rightharpoonup> string"
  trace :: "event list"

text \<open>A part of the body structure: \<open>node.dispositionParameters?.filename\<close> and \<open>node.part\<close>.\<close>

record body_node =
  disposition_filename :: "string option"
  part :: string

text \<open>
  A fetched message: \<open>uid\<close> stands for \<open>msg.uid.toString()\<close>, \<open>childNodes\<close> for
  \<open>msg.bodyStructure.childNodes\<close>, the part list the router iterates over. Only a
  multipart body structure has child nodes: for a single-part mail the property is
  \<open>undefined\<close>, which is \<open>None\<close> here.
\<close>

record fetched_message =
  uid :: string
  childNodes :: "body_node list option"

text \<open>What \<open>client.download\<close> resolves to: the content and \<open>meta\<close>.\<close>

record download_result =
  content :: string
  meta_filename :: string
  meta_expectedSize :: nat

record zip_entry =
  entry_path :: string
  entry_data :: string

record env =
  attachments_path :: string
  good_mailbox :: string
  bad_mailbox :: string
  path_sep :: string
  now_stamp :: string
  client_mailbox :: jsval
  client_usable :: bool
  fetch_result :: "fetched_message list \<times> js_error option"
  download :: "string \<Rightarrow> string \<Rightarrow> js_error + download_result"
  move_result :: "string \<Rightarrow> string \<Rightarrow> js_error + string"
  unzip :: "string \<Rightarrow> zip_entry list \<times> js_error option"
  write_error :: "string \<Rightarrow> js_error option"
  mkdir_error :: "string \<Rightarrow> js_error option"
  mkdtemp :: "string \<Rightarrow> js_error + string"
  parser_parse :: "(string \<rightharpoonup> string) \<Rightarrow> string \<Rightarrow> js_error + billing option"
  stringify :: "billing \<Rightarrow> string"
  exec_error :: "(string \<rightharpoonup> string) \<Rightarrow> string \<Rightarrow> string \<Rightarrow> string \<Rightarrow> js_error option"
  global_object :: "string \<rightharpoonup> jsval"
  to_string :: "jsval \<Rightarrow> string"

definition emit :: "event list \<Rightarrow> world \<Rightarrow> world" where
  "emit es w = w\<lparr>trace := trace w @ es\<rparr>"

text \<open>
  \<open>await fs.writeFile(path, data)\<close>: the write is attempted; it either is rejected and
  leaves the files as they were, or stores the data.
\<close>

definition writeFile :: "env \<Rightarrow> string \<Rightarrow> string \<Rightarrow> world \<Rightarrow> (js_error + unit) \<times> world" where
  "writeFile env p c w =
     (case write_error env p of
        Some e \<Rightarrow> (Inl e, emit [WriteFile p c False] w)
      | None \<Rightarrow> (Inr (), emit [WriteFile p c True] (w\<lparr>files := (files w)(p \<mapsto> c)\<rparr>)))"

text \<open>
  \<open>await exec(buildCommand(jsonPath, xmlPath, pdfPath))\<close>: the document builder is an
  external program that reads the files it is pointed to.
\<close>

definition exec :: "env \<Rightarrow> string \<Rightarrow> string \<Rightarrow> string \<Rightarrow> world \<Rightarrow> (js_error + unit) \<times> world" where
  "exec env jsonPath xmlPath pdfPath w =
     (case exec_error env (files w) jsonPath xmlPath pdfPath of
        Some e \<Rightarrow> (Inl e, emit [Exec jsonPath xmlPath pdfPath] w)
      | None \<Rightarrow> (Inr (), emit [Exec jsonPath xmlPath pdfPath] w))"

text \<open>\<open>[a, b, c, d].join(' ')\<close>.\<close>

fun join_space :: "string list \<Rightarrow> string" where
  "join_space [] = []"
| "join_space [s] = s"
| "join_space (s # t # ss) = s @ '' '' @ join_space (t # ss)"

text \<open>
  \<open>#moveMessage(uid, mailbox)\<close>, lines 34 to 50: whatever \<open>messageMove\<close> answers, the
  routine returns normally.
\<close>

definition moveMessage_events :: "env \<Rightarrow> string \<Rightarrow> string \<Rightarrow> event list" where
  "moveMessage_events env u mailbox =
     [LogInfo (join_space [''Requesting move to'', mailbox, ''- MSG:'', u]),
      MessageMove u mailbox] @
     (case move_result env u mailbox of
        Inr destination \<Rightarrow> [LogInfo (join_space [''Message moved to'', destination, ''- MSG:'', u])]
      | Inl e \<Rightarrow> [ConsoleError (message e), LogError (message e) ''Error moving message''])"

definition moveMessage :: "env \<Rightarrow> string \<Rightarrow> string \<Rightarrow> world \<Rightarrow> world" where
  "moveMessage env u mailbox w = emit (moveMessage_events env u mailbox) w"

subsection \<open>The direct-pair routine\<close>

text \<open>
  \<open>msg.uid.toString()\<close> inside \<open>#processXmlPdfNode\<close>. The routine declares two
  parameters, \<open>xmlNode\<close> and \<open>pdfNode\<close>; the third argument of the call at line 196 is
  not bound to any name. Its body has no local named \<open>msg\<close> and the module declares none
  (its top-level names are the imports and the class), so the identifier is looked up on the
  global object: unbound there, reading it is a \<open>ReferenceError\<close>. The same holds for
  \<open>client\<close> at line 76.
\<close>

definition free_identifier :: "env \<Rightarrow> string \<Rightarrow> js_error + jsval" where
  "free_identifier env name =
     (case global_object env name of None \<Rightarrow> Inl (ReferenceError name) | Some v \<Rightarrow> Inr v)"

definition free_msg_uid :: "env \<Rightarrow> js_error + string" where
  "free_msg_uid env =
     andThen (free_identifier env ''msg'') (\<lambda>m.
     andThen (getProp m ''uid'') (\<lambda>u.
       if nullish u then Inl (TypeError ''toString'') else Inr (to_string env u)))"

text \<open>
  The \<open>try\<close> block of \<open>#processXmlPdfNode\<close>, lines 60 to 76. The arguments of the
  first download are evaluated before anything is called. \<open>fs.mkdtemp\<close> is not awaited:
  \<open>tmpdir\<close> is a promise, which the template strings render as \<open>[object Promise]\<close>.
\<close>

definition processXmlPdfNode_try ::
  "env \<Rightarrow> string \<Rightarrow> string \<Rightarrow> world \<Rightarrow> (js_error + unit) \<times> world" where
  "processXmlPdfNode_try env xmlNode pdfNode w =
     (case free_msg_uid env of
        Inl e \<Rightarrow> (Inl e, w)
      | Inr u \<Rightarrow>
          (let w1 = emit [Download u xmlNode, Download u pdfNode] w in
           case download env u xmlNode of
             Inl e \<Rightarrow> (Inl e, w1)
           | Inr xmlDownload \<Rightarrow>
              (case download env u pdfNode of
                 Inl e \<Rightarrow> (Inl e, w1)
               | Inr pdfDownload \<Rightarrow>
                  (let w2 = emit [Mkdtemp (attachments_path env @ path_sep env)] w1;
                       tmpdir = ''[object Promise]'';
                       xmlPath = tmpdir @ ''/'' @ meta_filename xmlDownload;
                       pdfPath = tmpdir @ ''/'' @ meta_filename pdfDownload
                   in case writeFile env xmlPath (content xmlDownload) w2 of
                        (Inl e, w3) \<Rightarrow> (Inl e, w3)
                      | (Inr _, w3) \<Rightarrow>
                         (case writeFile env pdfPath (content pdfDownload) w3 of
                            (Inl e, w4) \<Rightarrow> (Inl e, w4)
                          | (Inr _, w4) \<Rightarrow>
                             (let jsonPath = replace xmlPath ''.xml'' ''.json'' in
                              case exec env jsonPath xmlPath pdfPath w4 of
                                (Inl e, w5) \<Rightarrow> (Inl e, w5)
                              | (Inr _, w5) \<Rightarrow>
                                 (case free_msg_uid env of
                                    Inl e \<Rightarrow> (Inl e, w5)
                                  | Inr u' \<Rightarrow>
                                     (case free_identifier env ''client'' of
                                        Inl e \<Rightarrow> (Inl e, w5)
                                      | Inr _ \<Rightarrow>
                                         (Inr (), moveMessage env u' (good_mailbox env) w5)))))))))"

text \<open>
  \<open>#processXmlPdfNode(xmlNode, pdfNode)\<close>, lines 58 to 86: the \<open>catch\<close> block reports
  the exception and then evaluates \<open>msg.uid.toString()\<close> itself, before it can call
  \<open>#moveMessage\<close>. The result is how the routine's promise settles.
\<close>

definition processXmlPdfNode ::
  "env \<Rightarrow> string \<Rightarrow> string \<Rightarrow> world \<Rightarrow> (js_error + unit) \<times> world" where
  "processXmlPdfNode env xmlNode pdfNode w =
     (case processXmlPdfNode_try env xmlNode pdfNode w of
        (Inr _, w') \<Rightarrow> (Inr (), w')
      | (Inl e, w') \<Rightarrow>
          (let w1 = emit [ConsoleError (message e),
                          LogError (message e) ''Error processing Message''] w'
           in case free_msg_uid env of
                Inl e' \<Rightarrow> (Inl e', w1)
              | Inr u \<Rightarrow> (Inr (), moveMessage env u (bad_mailbox env) w1)))"

subsection \<open>The bundle routine\<close>

text \<open>The variables of lines 105 to 112, which the loop over the archive assigns.\<close>

record capture =
  xml :: "zip_entry option"
  xmlPath :: string
  pdf :: "zip_entry option"
  pdfPath :: string
  jsonPath :: string

definition no_capture :: capture where
  "no_capture = \<lparr>xml = None, xmlPath = [], pdf = None, pdfPath = [], jsonPath = []\<rparr>"

text \<open>
  One entry of the archive, lines 115 to 137. The variables are assigned before the write
  is attempted, and the rejection of a write is handed to a handler that reports it: the
  console for the xml entry, the logger for the pdf entry. The entry is drained in any case.
  The entry is a stream that can be read once: when its path contains both \<open>.xml\<close>
  and \<open>.pdf\<close> and the first write has gone through, the second write, to the same
  path, finds the stream spent and leaves the file empty.
\<close>

definition unpack_entry :: "env \<Rightarrow> string \<Rightarrow> zip_entry \<Rightarrow> capture \<Rightarrow> world \<Rightarrow> capture \<times> world" where
  "unpack_entry env tmpdir entry c w =
     (let (c1, w1) =
            (if js_includes (entry_path entry) ''.xml'' then
               (let p = tmpdir @ ''/'' @ entry_path entry;
                    c' = c\<lparr>xml := Some entry, xmlPath := p,
                           jsonPath := replace p ''.xml'' ''.json''\<rparr>
                in case writeFile env p (entry_data entry) w of
                     (Inl e, w') \<Rightarrow> (c', emit [ConsoleError (message e)] w')
                   | (Inr _, w') \<Rightarrow> (c', w'))
             else (c, w));
          (c2, w2) =
            (if js_includes (entry_path entry) ''.pdf'' then
               (let p = tmpdir @ ''/'' @ entry_path entry;
                    c' = c1\<lparr>pdf := Some entry, pdfPath := p\<rparr>;
                    rest = (if js_includes (entry_path entry) ''.xml'' \<and> write_error env p = None
                            then [] else entry_data entry)
                in case writeFile env p rest w1 of
                     (Inl e, w') \<Rightarrow> (c', emit [LogError (message e) []] w')
                   | (Inr _, w') \<Rightarrow> (c', w'))
             else (c1, w1))
      in (c2, emit [Drain (entry_path entry)] w2))"

text \<open>The loop \<open>for await (const entry of zip)\<close>, lines 114 to 138.\<close>

fun unpack_entries :: "env \<Rightarrow> string \<Rightarrow> zip_entry list \<Rightarrow> capture \<Rightarrow> world \<Rightarrow> capture \<times> world" where
  "unpack_entries env tmpdir [] c w = (c, w)"
| "unpack_entries env tmpdir (entry # rest) c w =
     (case unpack_entry env tmpdir entry c w of
        (c', w') \<Rightarrow> unpack_entries env tmpdir rest c' w')"

text \<open>The message of line 153; its accented letters are written as their UTF-8 bytes.\<close>

definition msg_no_invoice :: string where
  "msg_no_invoice =
     ''No conten'' @ [CHR 0xC3, CHR 0xAD] @ ''a una factura v'' @ [CHR 0xC3, CHR 0xA1] @ ''lida''"

text \<open>
  Lines 148 to 151: the builder is run on the three paths, the message is moved to the
  success mailbox, and then the removal of the workspace is started (\<open>fs.rm\<close> is
  not awaited: the event is the call).
\<close>

definition run_builder ::
  "env \<Rightarrow> string \<Rightarrow> fetched_message \<Rightarrow> capture \<Rightarrow> world \<Rightarrow> (js_error + unit) \<times> world" where
  "run_builder env tmpdir msg c w =
     (case exec env (jsonPath c) (xmlPath c) (pdfPath c) w of
        (Inl e, w') \<Rightarrow> (Inl e, w')
      | (Inr _, w') \<Rightarrow>
          (Inr (), emit [Rm tmpdir] (moveMessage env (uid msg) (good_mailbox env) w')))"

text \<open>
  Lines 141 to 151, once both an xml and a pdf entry are recorded: the injected parser
  reads the xml path, the billing is written to the json path, and the builder is run.
\<close>

definition build_and_route ::
  "env \<Rightarrow> string \<Rightarrow> fetched_message \<Rightarrow> capture \<Rightarrow> world \<Rightarrow> (js_error + unit) \<times> world" where
  "build_and_route env tmpdir msg c w =
     (let w1 = emit [ParserParse (xmlPath c)] w in
      case parser_parse env (files w1) (xmlPath c) of
        Inl e \<Rightarrow> (Inl e, w1)
      | Inr None \<Rightarrow> (Inl (Error ''Could not get data from XML''), w1)
      | Inr (Some data) \<Rightarrow>
         (case writeFile env (jsonPath c) (stringify env data) w1 of
            (Inl e, w2) \<Rightarrow> (Inl e, w2)
          | (Inr _, w2) \<Rightarrow> run_builder env tmpdir msg c w2))"

text \<open>
  The \<open>try\<close> block of \<open>#processZipNode\<close>, lines 96 to 154. The archive stream gives its
  entries and may break off with an error after them.
\<close>

definition processZipNode_try ::
  "env \<Rightarrow> string \<Rightarrow> string \<Rightarrow> fetched_message \<Rightarrow> world \<Rightarrow> (js_error + unit) \<times> world" where
  "processZipNode_try env zipNode tmpdir msg w =
     (let w0 = emit [Download (uid msg) zipNode] w in
      case download env (uid msg) zipNode of
        Inl e \<Rightarrow> (Inl e, w0)
      | Inr d \<Rightarrow>
         (if meta_expectedSize d > 4 * 1024 * 1024 then (Inl (Error ''Size too big''), w0)
          else
            (case unzip env (content d) of
               (entries, stream_error) \<Rightarrow>
                 (case unpack_entries env tmpdir entries no_capture w0 of
                    (c, w1) \<Rightarrow>
                      (case stream_error of
                         Some e \<Rightarrow> (Inl e, w1)
                       | None \<Rightarrow>
                           if xml c \<noteq> None \<and> pdf c \<noteq> None
                           then build_and_route env tmpdir msg c w1
                           else (Inl (Error msg_no_invoice), w1))))))"

text \<open>
  \<open>#processZipNode(zipNode, tmpdir, msg)\<close>, lines 94 to 164: the \<open>catch\<close> block
  reports, starts the removal of the workspace and moves the message to the failure mailbox.
\<close>

definition processZipNode :: "env \<Rightarrow> string \<Rightarrow> string \<Rightarrow> fetched_message \<Rightarrow> world \<Rightarrow> world" where
  "processZipNode env zipNode tmpdir msg w =
     (case processZipNode_try env zipNode tmpdir msg w of
        (Inr _, w') \<Rightarrow> w'
      | (Inl e, w') \<Rightarrow>
          moveMessage env (uid msg) (bad_mailbox env)
            (emit [ConsoleError (message e),
                   LogError (message e) ''Could not process mail data'',
                   Rm tmpdir] w'))"

subsection \<open>The attachment router and the polling cycle\<close>

text \<open>
  The loop of lines 177 to 193 over the part list. The three variables start as
  \<open>undefined\<close>, \<open>undefined\<close> and \<open>null\<close>, all \<open>None\<close> here. A part without a
  filename, or with an empty one, is passed over; otherwise each test that succeeds assigns
  its variable, whether or not it was assigned before.
\<close>

fun classify ::
  "body_node list \<Rightarrow> string option \<times> string option \<times> string option \<Rightarrow>
   string option \<times> string option \<times> string option" where
  "classify [] acc = acc"
| "classify (node # rest) (xmlNode, pdfNode, zipNode) =
     (case disposition_filename node of
        None \<Rightarrow> classify rest (xmlNode, pdfNode, zipNode)
      | Some f \<Rightarrow>
          if f = [] then classify rest (xmlNode, pdfNode, zipNode)
          else classify rest
            (if js_includes (toLowerCase f) ''.xml'' then Some (part node) else xmlNode,
             if js_includes (toLowerCase f) ''.pdf'' then Some (part node) else pdfNode,
             if js_includes (toLowerCase f) ''.zip'' then Some (part node) else zipNode))"

text \<open>The test \<open>if (node)\<close> on a part path: an assigned, non-empty string.\<close>

definition truthy_node :: "string option \<Rightarrow> bool" where
  "truthy_node n = (case n of None \<Rightarrow> False | Some s \<Rightarrow> s \<noteq> [])"

datatype strategy = DirectPair string string | Bundle string | Skip

text \<open>The decision of lines 195 to 200.\<close>

definition strategy_of :: "string option \<times> string option \<times> string option \<Rightarrow> strategy" where
  "strategy_of v =
     (case v of (xmlNode, pdfNode, zipNode) \<Rightarrow>
        if truthy_node xmlNode \<and> truthy_node pdfNode then DirectPair (the xmlNode) (the pdfNode)
        else if truthy_node zipNode then Bundle (the zipNode)
        else Skip)"

text \<open>
  \<open>#processMessage(msg, timestampDir)\<close>, lines 171 to 201. The loop of line 177
  iterates over \<open>msg.bodyStructure.childNodes\<close>: when that is \<open>undefined\<close> the
  \<open>for ... of\<close> raises a \<open>TypeError\<close> and \<open>#processMessage\<close> fails before it
  has done anything. Neither routine is awaited, so how its promise settles is dropped; the
  model runs the routine to its end before the next message, which is the order of the
  calls the routine makes, not of their completion among those of other messages. Beside
  the loop, only \<open>fs.mkdtemp\<close>, which is awaited, can make \<open>#processMessage\<close>
  itself fail.
\<close>

definition processMessage ::
  "env \<Rightarrow> fetched_message \<Rightarrow> string \<Rightarrow> world \<Rightarrow> (js_error + unit) \<times> world" where
  "processMessage env msg timestampDir w =
     (case childNodes msg of
        None \<Rightarrow> (Inl (TypeError ''childNodes''), w)
      | Some nodes \<Rightarrow>
         (case strategy_of (classify nodes (None, None, None)) of
            DirectPair xmlNode pdfNode \<Rightarrow>
              (Inr (), snd (processXmlPdfNode env xmlNode pdfNode w))
          | Bundle zipNode \<Rightarrow>
              (case mkdtemp env timestampDir of
                 Inl e \<Rightarrow> (Inl e, emit [Mkdtemp timestampDir] w)
               | Inr tmpdir \<Rightarrow>
                   (Inr (),
                    processZipNode env zipNode tmpdir msg (emit [Mkdtemp timestampDir] w)))
          | Skip \<Rightarrow> (Inr (), w)))"

text \<open>
  The loop \<open>for await (const msg of messages)\<close>, lines 222 to 224: a message on which
  \<open>#processMessage\<close> fails ends the loop.
\<close>

fun process_all ::
  "env \<Rightarrow> fetched_message list \<Rightarrow> string \<Rightarrow> world \<Rightarrow> (js_error + unit) \<times> world" where
  "process_all env [] timestampDir w = (Inr (), w)"
| "process_all env (msg # rest) timestampDir w =
     (case processMessage env msg timestampDir w of
        (Inl e, w') \<Rightarrow> (Inl e, w')
      | (Inr _, w') \<Rightarrow> process_all env rest timestampDir w')"

text \<open>\<open>typeof v === 'boolean'\<close>.\<close>

fun is_boolean :: "jsval \<Rightarrow> bool" where
  "is_boolean (Bool _) = True"
| "is_boolean _ = False"

text \<open>The \<open>catch\<close> block of lines 225 to 235.\<close>

definition fatal :: "js_error \<Rightarrow> world \<Rightarrow> world" where
  "fatal e w =
     emit [ConsoleError (message e), LogError (message e) [], LockRelease, Logout, ProcessExit 1] w"

text \<open>
  \<open>#fetchMessages()\<close>, lines 206 to 236, which \<open>processMessages()\<close> awaits and
  nothing else. The directory of the cycle is made first, outside the \<open>try\<close>.
\<close>

definition fetchMessages :: "env \<Rightarrow> world \<Rightarrow> (js_error + unit) \<times> world" where
  "fetchMessages env w =
     (let timestampDir = attachments_path env @ ''/'' @ now_stamp env @ ''/'';
          w1 = emit [Mkdir timestampDir] w
      in case mkdir_error env timestampDir of
           Some e \<Rightarrow> (Inl e, w1)
         | None \<Rightarrow>
             if is_boolean (client_mailbox env) then (Inr (), w1)
             else if \<not> client_usable env then (Inr (), w1)
             else
               (case process_all env (fst (fetch_result env)) timestampDir (emit [Fetch] w1) of
                  (Inl e, w2) \<Rightarrow> (Inr (), fatal e w2)
                | (Inr _, w2) \<Rightarrow>
                    (case snd (fetch_result env) of
                       Some e \<Rightarrow> (Inr (), fatal e w2)
                     | None \<Rightarrow> (Inr (), w2))))"

definition processMessages :: "env \<Rightarrow> world \<Rightarrow> (js_error + unit) \<times> world" where
  "processMessages env w = fetchMessages env w"

section \<open>What the specification says, and the inputs it names\<close>

text \<open>
  The minimal invoice of the specification's round-trip property: an identifier, a CUFE,
  an issue date and the two parties, and nothing else; in particular no \<open>Attachment\<close>.
\<close>

definition minimal_invoice :: jsval where
  "minimal_invoice = Obj
     [(''ID'', Str ''X''), (''UUID'', Str ''Y''), (''IssueDate'', Str ''2024-01-01''),
      (''AccountingSupplierParty'', Obj [(''Party'', Obj [(''PartyTaxScheme'',
         Obj [(''CompanyID'', Str ''1''), (''RegistrationName'', Str ''A'')])])]),
      (''AccountingCustomerParty'', Obj [(''Party'', Obj [(''PartyTaxScheme'',
         Obj [(''CompanyID'', Str ''2''), (''RegistrationName'', Str ''B'')])])])]"

text \<open>
  The value found at a field, \<open>undefined\<close> when the field or its holder is absent:
  the reading the specification's fallback chains are written in.
\<close>

definition read :: "jsval \<Rightarrow> string \<Rightarrow> jsval" where
  "read v k = (case getProp v k of Inl _ \<Rightarrow> Undefined | Inr x \<Rightarrow> x)"

fun first_non_null :: "jsval list \<Rightarrow> jsval \<Rightarrow> jsval" where
  "first_non_null [] d = d"
| "first_non_null (v # vs) d = (if nullish v then first_non_null vs d else v)"

text \<open>
  The fallback chain of the identifier in the specification's words: the attachment's
  \<open>ID\<close>, its \<open>Invoice.ID\<close>, its \<open>CreditNote.ID\<close>, the document's
  \<open>ParentDocumentID\<close> unless it is the string \<open>null\<close>, its \<open>AltID\<close>, its
  \<open>ParentDocumentLineReference.DocumentReference.ID\<close>, its own \<open>ID\<close>, and the empty
  string when none of them is there.
\<close>

definition id_chain :: "jsval \<Rightarrow> jsval \<Rightarrow> jsval" where
  "id_chain document attachment = first_non_null
     [read attachment ''ID'',
      read (read attachment ''Invoice'') ''ID'',
      read (read attachment ''CreditNote'') ''ID'',
      (if read document ''ParentDocumentID'' = Str ''null'' then Undefined
       else read document ''ParentDocumentID''),
      read document ''AltID'',
      read (read (read document ''ParentDocumentLineReference'') ''DocumentReference'') ''ID'',
      read document ''ID'']
     (Str [])"

text \<open>
  What the links before a given one yield: the attachment's three, which come before any
  read of the document, and the five that come before the
  \<open>ParentDocumentLineReference\<close>. The value is nullish when no link of them gives one.
\<close>

definition attachment_id :: "jsval \<Rightarrow> jsval" where
  "attachment_id attachment = first_non_null
     [read attachment ''ID'',
      read (read attachment ''Invoice'') ''ID'',
      read (read attachment ''CreditNote'') ''ID'']
     Undefined"

definition early_id :: "jsval \<Rightarrow> jsval \<Rightarrow> jsval" where
  "early_id document attachment = first_non_null
     [read attachment ''ID'',
      read (read attachment ''Invoice'') ''ID'',
      read (read attachment ''CreditNote'') ''ID'',
      (if read document ''ParentDocumentID'' = Str ''null'' then Undefined
       else read document ''ParentDocumentID''),
      read document ''AltID'']
     Undefined"

text \<open>The same chain with the \<open>ParentDocumentID\<close> taken out.\<close>

definition id_chain_without_parent :: "jsval \<Rightarrow> jsval \<Rightarrow> jsval" where
  "id_chain_without_parent document attachment = first_non_null
     [read attachment ''ID'',
      read (read attachment ''Invoice'') ''ID'',
      read (read attachment ''CreditNote'') ''ID'',
      read document ''AltID'',
      read (read (read document ''ParentDocumentLineReference'') ''DocumentReference'') ''ID'',
      read document ''ID'']
     (Str [])"

definition or_empty :: "jsval \<Rightarrow> jsval" where
  "or_empty v = (if nullish v then Str [] else v)"

text \<open>
  A part matches a suffix when it has a filename that, in lower case, contains it. The
  specification has the first matching part selected; \<open>last_match\<close> is the other end.
\<close>

definition matches :: "string \<Rightarrow> body_node \<Rightarrow> bool" where
  "matches sfx node =
     (case disposition_filename node of
        None \<Rightarrow> False
      | Some f \<Rightarrow> js_includes (toLowerCase f) sfx)"

definition first_match :: "string \<Rightarrow> body_node list \<Rightarrow> string option" where
  "first_match sfx nodes =
     (case filter (matches sfx) nodes of [] \<Rightarrow> None | n # _ \<Rightarrow> Some (part n))"

definition last_match :: "string \<Rightarrow> body_node list \<Rightarrow> string option" where
  "last_match sfx nodes =
     (case rev (filter (matches sfx) nodes) of [] \<Rightarrow> None | n # _ \<Rightarrow> Some (part n))"

definition has_part :: "string \<Rightarrow> body_node list \<Rightarrow> bool" where
  "has_part sfx nodes = (\<exists>n \<in> set nodes. matches sfx n)"

definition or_else :: "string option \<Rightarrow> string option \<Rightarrow> string option" where
  "or_else a b = (case a of None \<Rightarrow> b | Some v \<Rightarrow> Some v)"

subsection \<open>Reading a trace\<close>

text \<open>The paths of the entries drained, in order.\<close>

fun drained :: "event list \<Rightarrow> string list" where
  "drained [] = []"
| "drained (Drain q # es) = q # drained es"
| "drained (_ # es) = drained es"

text \<open>The events the loop over the archive can make.\<close>

fun unpack_event :: "event \<Rightarrow> bool" where
  "unpack_event (WriteFile _ _ _) = True"
| "unpack_event (ConsoleError _) = True"
| "unpack_event (LogError _ _) = True"
| "unpack_event (Drain _) = True"
| "unpack_event _ = False"

text \<open>An event that neither removes a workspace nor moves a message.\<close>

fun quiet :: "event \<Rightarrow> bool" where
  "quiet (Rm _) = False"
| "quiet (MessageMove _ _) = False"
| "quiet _ = True"

text \<open>\<open>a\<close> occurs in the trace before the first \<open>b\<close>.\<close>

definition occurs_before :: "event \<Rightarrow> event \<Rightarrow> event list \<Rightarrow> bool" where
  "occurs_before a b t = (a \<in> set (takeWhile (\<lambda>e. e \<noteq> b) t))"

text \<open>
  What one entry of the archive adds to the trace and does to the variables of the loop,
  read off \<open>unpack_entry\<close>.
\<close>

definition entry_events :: "env \<Rightarrow> string \<Rightarrow> zip_entry \<Rightarrow> event list" where
  "entry_events env tmpdir entry =
     (let p = tmpdir @ ''/'' @ entry_path entry in
      (if js_includes (entry_path entry) ''.xml'' then
         WriteFile p (entry_data entry) (write_error env p = None) #
         (case write_error env p of Some e \<Rightarrow> [ConsoleError (message e)] | None \<Rightarrow> [])
       else []) @
      (if js_includes (entry_path entry) ''.pdf'' then
         WriteFile p
           (if js_includes (entry_path entry) ''.xml'' \<and> write_error env p = None
            then [] else entry_data entry)
           (write_error env p = None) #
         (case write_error env p of Some e \<Rightarrow> [LogError (message e) []] | None \<Rightarrow> [])
       else []) @
      [Drain (entry_path entry)])"

definition entry_capture :: "string \<Rightarrow> zip_entry \<Rightarrow> capture \<Rightarrow> capture" where
  "entry_capture tmpdir entry c =
     (let p = tmpdir @ ''/'' @ entry_path entry;
          c1 = (if js_includes (entry_path entry) ''.xml''
                then c\<lparr>xml := Some entry, xmlPath := p, jsonPath := replace p ''.xml'' ''.json''\<rparr>
                else c)
      in if js_includes (entry_path entry) ''.pdf''
         then c1\<lparr>pdf := Some entry, pdfPath := p\<rparr> else c1)"

text \<open>The loop over the archive as \<open>#processZipNode\<close> starts it, after the download.\<close>

definition unpacked ::
  "env \<Rightarrow> string \<Rightarrow> fetched_message \<Rightarrow> string \<Rightarrow> zip_entry list \<Rightarrow> world \<Rightarrow> capture \<times> world" where
  "unpacked env tmpdir msg z entries w =
     unpack_entries env tmpdir entries no_capture (emit [Download (uid msg) z] w)"

subsection \<open>A concrete run\<close>

text \<open>
  An environment in which everything succeeds: the bundle holds \<open>f.xml\<close> and
  \<open>f.pdf\<close>, the XML parser reads the xml entry as an invoice with an embedded
  attachment, and the injected parser is the billing parser above.
\<close>

definition demo_tree :: jsval where
  "demo_tree = Obj [(''Invoice'', Obj
     [(''ID'', Str ''F-1''), (''UUID'', Str ''cufe-1''), (''IssueDate'', Str ''2024-01-01''),
      (''Attachment'', Obj [(''ExternalReference'', Obj [(''Description'',
         Obj [(''__cdata'', Str ''<a/>'')])])]),
      (''AccountingSupplierParty'', Obj [(''Party'', Obj [(''PartyTaxScheme'',
         Obj [(''CompanyID'', Str ''1''), (''RegistrationName'', Str ''A'')])])]),
      (''AccountingCustomerParty'', Obj [(''Party'', Obj [(''PartyTaxScheme'',
         Obj [(''CompanyID'', Str ''2''), (''RegistrationName'', Str ''B'')])])])])]"

definition demo_xml_parse :: "string \<Rightarrow> js_error + jsval" where
  "demo_xml_parse s = (if s = ''<Invoice/>'' then Inr demo_tree else Inr (Obj []))"

definition demo_env :: env where
  "demo_env = \<lparr>
     attachments_path = ''/data'',
     good_mailbox = ''Processed'',
     bad_mailbox = ''Failed'',
     path_sep = ''/'',
     now_stamp = ''202401010000'',
     client_mailbox = Obj [(''path'', Str ''INBOX'')],
     client_usable = True,
     fetch_result = ([], None),
     download = (\<lambda>u p. Inr \<lparr>content = ''PK'', meta_filename = ''bundle.zip'',
                               meta_expectedSize = 1000\<rparr>),
     move_result = (\<lambda>u m. Inr m),
     unzip = (\<lambda>s. ([\<lparr>entry_path = ''f.xml'', entry_data = ''<Invoice/>''\<rparr>,
                      \<lparr>entry_path = ''f.pdf'', entry_data = ''%PDF''\<rparr>], None)),
     write_error = (\<lambda>p. None),
     mkdir_error = (\<lambda>p. None),
     mkdtemp = (\<lambda>p. Inr (p @ ''abc123'')),
     parser_parse = (\<lambda>fs p. map_sum (\<lambda>e. e) Some (parse demo_xml_parse fs p)),
     stringify = (\<lambda>b. ''{}''),
     exec_error = (\<lambda>fs j x p. None),
     global_object = Map.empty,
     to_string = (\<lambda>v. [])\<rparr>"

text \<open>The same environment with a workspace in which every write is rejected.\<close>

definition demo_env_readonly :: env where
  "demo_env_readonly = demo_env\<lparr>write_error := (\<lambda>p. Some (Error ''EACCES''))\<rparr>"

text \<open>The same environment with no mailbox selected.\<close>

definition demo_env_no_mailbox :: env where
  "demo_env_no_mailbox = demo_env\<lparr>client_mailbox := Bool False\<rparr>"

definition demo_msg :: fetched_message where
  "demo_msg = \<lparr>uid = ''7'', childNodes = Some
     [\<lparr>disposition_filename = None, part = ''1''\<rparr>,
      \<lparr>disposition_filename = Some ''Bundle.ZIP'', part = ''2''\<rparr>]\<rparr>"

text \<open>A message that carries an xml part, a pdf part and a zip part.\<close>

definition demo_msg_all :: fetched_message where
  "demo_msg_all = \<lparr>uid = ''8'', childNodes = Some
     [\<lparr>disposition_filename = Some ''Factura.XML'', part = ''1''\<rparr>,
      \<lparr>disposition_filename = Some ''factura.pdf'', part = ''2''\<rparr>,
      \<lparr>disposition_filename = Some ''todo.zip'', part = ''3''\<rparr>]\<rparr>"

text \<open>
  A single-part mail, a plain text message with no attachment: its body structure has no
  child nodes. And the environment of a cycle that fetches this mail, then another.
\<close>

definition plain_msg :: fetched_message where
  "plain_msg = \<lparr>uid = ''9'', childNodes = None\<rparr>"

definition demo_env_plain :: env where
  "demo_env_plain = demo_env\<lparr>fetch_result := ([plain_msg, demo_msg], None)\<rparr>"

definition demo_world :: world where
  "demo_world = \<lparr>files = Map.empty, trace = []\<rparr>"

text \<open>An attached document that names no party at all.\<close>

definition demo_attached :: jsval where
  "demo_attached = Obj
     [(''ID'', Str ''F-2''),
      (''Attachment'', Obj [(''ExternalReference'', Obj [(''Description'',
         Obj [(''__cdata'', Str ''<a/>'')])])])]"

section \<open>Reading fields\<close>

lemma getProp_read: "\<not> nullish v \<Longrightarrow> getProp v k = Inr (read v k)"
  by (cases v) (simp_all add: read_def)

lemma read_nullish: "nullish v \<Longrightarrow> read v k = Undefined"
  by (cases v) (simp_all add: read_def)

lemma opt_chain_read: "opt_chain v (\<lambda>a. getProp a k) = Inr (read v k)"
  by (simp add: opt_chain_def getProp_read read_nullish)

lemma opt_chain_read_twice:
  "opt_chain v (\<lambda>a. andThen (getProp a k) (\<lambda>i. Inr (read i j))) = Inr (read (read v k) j)"
  by (simp add: opt_chain_def getProp_read read_nullish andThen_def)

lemma coalesce_Inr: "coalesce (Inr a) b = (if nullish a then b else Inr a)"
  by (simp add: coalesce_def)

section \<open>The billing extractor\<close>

text \<open>
  Taken one by one, the fields of the minimal invoice are what the specification expects:
  with no attachment at hand the identifier is \<open>X\<close>, the value is \<open>0\<close> and the parties
  are projected to their tax scheme.
\<close>

lemma minimal_invoice_fields:
  "extractID minimal_invoice Undefined = Inr (Str ''X'')"
  "getProp minimal_invoice ''UUID'' = Inr (Str ''Y'')"
  "getProp minimal_invoice ''IssueDate'' = Inr (Str ''2024-01-01'')"
  "extractValue minimal_invoice = Inr (Num 0)"
  "andThen (andThen (getProp minimal_invoice ''AccountingSupplierParty'') (\<lambda>s. getProp s ''Party''))
     extractEntityData = Inr \<lparr>nit = Str ''1'', nombre = Str ''A''\<rparr>"
  "andThen (andThen (getProp minimal_invoice ''AccountingCustomerParty'') (\<lambda>s. getProp s ''Party''))
     extractEntityData = Inr \<lparr>nit = Str ''2'', nombre = Str ''B''\<rparr>"
  by (simp_all add: extractID_def extractValue_def extractEntityData_def entity_field_def
      minimal_invoice_def andThen_def coalesce_def opt_chain_def)

text \<open>
  Claim C1 says that extraction from the minimal invoice, which has no \<open>Attachment\<close>
  element, succeeds with the record \<open>{id: X, cufe: Y, date: 2024-01-01, value: 0, ...}\<close>.
  The code does not get that far. \<open>#extractAttachmentBilling\<close> begins by extracting the
  embedded attachment, which reads \<open>document.Attachment.ExternalReference\<close> with no
  guard: on the minimal invoice this is a \<open>TypeError\<close>, whatever the XML parser is, and
  \<open>#parseXML\<close> turns it into its own error. No record is returned.
\<close>

theorem minimal_invoice_raises:
  "extractAttachmentBilling xml_parse minimal_invoice = Inl (TypeError ''ExternalReference'')
   \<and> parseXML_tree xml_parse (Obj [(''Invoice'', minimal_invoice)]) = Inl (Error msg_read_failed)"
  by (simp add: extractAttachmentBilling_def extractAttachment_def parseXML_tree_def
      minimal_invoice_def andThen_def)

text \<open>
  A party that is there but has no \<open>PartyTaxScheme\<close>, only a name: the projection
  raises, it does not yield two empty strings.
\<close>

theorem entity_without_scheme_raises:
  "extractEntityData (Obj [(''PartyName'', Obj [(''Name'', Str ''A'')])])
     = Inl (TypeError ''CompanyID'')"
  by (simp add: extractEntityData_def entity_field_def andThen_def coalesce_def opt_chain_def)

lemma andThen_Inr: "andThen r f = Inr y \<Longrightarrow> \<exists>v. r = Inr v \<and> f v = Inr y"
  by (cases r) (simp_all add: andThen_def)

lemma extractEntityData_cases:
  "extractEntityData entity =
     (if nullish entity then Inr \<lparr>nit = Str [], nombre = Str []\<rparr>
      else if nullish (read entity ''PartyTaxScheme'') then Inl (TypeError ''CompanyID'')
      else Inr \<lparr>nit = or_empty (read (read entity ''PartyTaxScheme'') ''CompanyID''),
                nombre = or_empty (read (read entity ''PartyTaxScheme'') ''RegistrationName'')\<rparr>)"
  apply (auto simp add: extractEntityData_def entity_field_def opt_chain_def coalesce_Inr
      getProp_read andThen_def or_empty_def)
  apply (cases "read entity ''PartyTaxScheme''"; simp add: coalesce_def)+
  done

text \<open>
  On the \<open>AttachedDocument\<close> path the party handed to the projection is the
  \<open>SenderParty\<close> (\<open>ReceiverParty\<close>), or else the \<open>Party\<close> of the
  \<open>AccountingSupplierParty\<close> (\<open>AccountingCustomerParty\<close>), or else nothing.
\<close>

lemma extractBilling_parties:
  assumes "extractBilling xml_parse document = Inr b"
  shows "extractEntityData (if nullish (read document ''SenderParty'')
            then read (read document ''AccountingSupplierParty'') ''Party''
            else read document ''SenderParty'') = Inr (proveedor b)
       \<and> extractEntityData (if nullish (read document ''ReceiverParty'')
            then read (read document ''AccountingCustomerParty'') ''Party''
            else read document ''ReceiverParty'') = Inr (cliente b)"
proof -
  from assms obtain a where a: "extractAttachment xml_parse document = Inr a"
    unfolding extractBilling_def by (blast dest: andThen_Inr)
  then have nn: "\<not> nullish document"
    by (cases document) (simp_all add: extractAttachment_def andThen_def)
  have s: "coalesce (getProp document ''SenderParty'')
          (andThen (getProp document ''AccountingSupplierParty'')
             (\<lambda>s. opt_chain s (\<lambda>s. getProp s ''Party'')))
        = Inr (if nullish (read document ''SenderParty'')
            then read (read document ''AccountingSupplierParty'') ''Party''
            else read document ''SenderParty'')"
    using nn by (simp add: getProp_read coalesce_Inr andThen_def opt_chain_read)
  have r: "coalesce (getProp document ''ReceiverParty'')
          (andThen (getProp document ''AccountingCustomerParty'')
             (\<lambda>s. opt_chain s (\<lambda>s. getProp s ''Party'')))
        = Inr (if nullish (read document ''ReceiverParty'')
            then read (read document ''AccountingCustomerParty'') ''Party''
            else read document ''ReceiverParty'')"
    using nn by (simp add: getProp_read coalesce_Inr andThen_def opt_chain_read)
  from assms show ?thesis
    unfolding extractBilling_def s r
    by (auto simp add: andThen_def split: sum.splits)
qed

text \<open>
  Claim C2, as amended. The projection of a party to \<open>{nit, nombre}\<close> is total on an
  absent entity, where it yields two empty strings, and on an entity that has a
  \<open>PartyTaxScheme\<close>, where it yields the scheme's \<open>CompanyID\<close> and
  \<open>RegistrationName\<close>, the empty string standing for an absent one; an entity that is
  there without a \<open>PartyTaxScheme\<close> raises a \<open>TypeError\<close>. On the
  \<open>AttachedDocument\<close> path, a document that extracts and has neither a
  \<open>SenderParty\<close> nor an \<open>AccountingSupplierParty\<close> gets two empty strings for
  its \<open>proveedor\<close>, and likewise for its \<open>cliente\<close>.
\<close>

theorem party_projection:
  "extractEntityData entity =
     (if nullish entity then Inr \<lparr>nit = Str [], nombre = Str []\<rparr>
      else if nullish (read entity ''PartyTaxScheme'') then Inl (TypeError ''CompanyID'')
      else Inr \<lparr>nit = or_empty (read (read entity ''PartyTaxScheme'') ''CompanyID''),
                nombre = or_empty (read (read entity ''PartyTaxScheme'') ''RegistrationName'')\<rparr>)
   \<and> (extractBilling xml_parse document = Inr b
        \<and> nullish (read document ''SenderParty'')
        \<and> nullish (read document ''AccountingSupplierParty'')
        \<longrightarrow> proveedor b = \<lparr>nit = Str [], nombre = Str []\<rparr>)
   \<and> (extractBilling xml_parse document = Inr b
        \<and> nullish (read document ''ReceiverParty'')
        \<and> nullish (read document ''AccountingCustomerParty'')
        \<longrightarrow> cliente b = \<lparr>nit = Str [], nombre = Str []\<rparr>)"
proof -
  have e: "extractEntityData Undefined = Inr \<lparr>nit = Str [], nombre = Str []\<rparr>"
    by (simp add: extractEntityData_cases)
  have "proveedor b = \<lparr>nit = Str [], nombre = Str []\<rparr>"
    if "extractBilling xml_parse document = Inr b" "nullish (read document ''SenderParty'')"
      "nullish (read document ''AccountingSupplierParty'')"
    using extractBilling_parties [OF that(1)] that(2,3) e by (simp add: read_nullish)
  moreover have "cliente b = \<lparr>nit = Str [], nombre = Str []\<rparr>"
    if "extractBilling xml_parse document = Inr b" "nullish (read document ''ReceiverParty'')"
      "nullish (read document ''AccountingCustomerParty'')"
    using extractBilling_parties [OF that(1)] that(2,3) e by (simp add: read_nullish)
  ultimately show ?thesis using extractEntityData_cases [of entity] by blast
qed

lemma demo_attached_billing:
  "extractBilling demo_xml_parse demo_attached =
     Inr \<lparr>id' = Str ''F-2'', cufe = Str [], date = Undefined, value = Num 0,
          proveedor = \<lparr>nit = Str [], nombre = Str []\<rparr>,
          cliente = \<lparr>nit = Str [], nombre = Str []\<rparr>\<rparr>"
  by (simp add: extractBilling_def extractAttachment_def extractID_def extractCUFE_def
      extractValue_def extractEntityData_def entity_field_def demo_attached_def
      demo_xml_parse_def andThen_def coalesce_def opt_chain_def)

theorem party_projection_witness:
  "extractEntityData Undefined = Inr \<lparr>nit = Str [], nombre = Str []\<rparr>
   \<and> (\<exists>b. extractBilling demo_xml_parse demo_attached = Inr b)
   \<and> nullish (read demo_attached ''SenderParty'')
   \<and> nullish (read demo_attached ''AccountingSupplierParty'')
   \<and> nullish (read demo_attached ''ReceiverParty'')
   \<and> nullish (read demo_attached ''AccountingCustomerParty'')"
  using party_projection [of Undefined demo_xml_parse demo_attached]
  by (simp add: demo_attached_billing) (simp add: read_def demo_attached_def)

lemma getProp_nullish: "nullish v \<Longrightarrow> getProp v k = Inl (TypeError k)"
  by (cases v) simp_all

lemma coalesce_found: "\<not> nullish a \<Longrightarrow> coalesce (Inr a) b = Inr a"
  by (simp add: coalesce_def)

lemma attachment_links:
  "coalesce (coalesce
       (opt_chain attachment (\<lambda>a. getProp a ''ID''))
       (opt_chain attachment (\<lambda>a. andThen (getProp a ''Invoice'')
          (\<lambda>i. opt_chain i (\<lambda>i. getProp i ''ID'')))))
       (opt_chain attachment (\<lambda>a. andThen (getProp a ''CreditNote'')
          (\<lambda>c. opt_chain c (\<lambda>c. getProp c ''ID''))))
   = Inr (if nullish (attachment_id attachment)
          then read (read attachment ''CreditNote'') ''ID''
          else attachment_id attachment)"
  unfolding opt_chain_read opt_chain_read_twice
  by (simp add: coalesce_Inr attachment_id_def)

text \<open>
  Where the chain raises instead of yielding a value: the document is read only once the
  attachment has given no identifier, and is then read with no guard; and
  \<open>ParentDocumentLineReference?.DocumentReference.ID\<close> guards its first step only, so
  once no earlier link has given an identifier a line reference without a
  \<open>DocumentReference\<close> is a \<open>TypeError\<close>, where \<open>#extractCUFE\<close> guards both
  steps.
\<close>

lemma extractID_raises:
  "nullish (attachment_id attachment) \<and> nullish document \<Longrightarrow>
     extractID document attachment = Inl (TypeError ''ParentDocumentID'')"
  "\<not> nullish document \<and> nullish (early_id document attachment)
     \<and> \<not> nullish (read document ''ParentDocumentLineReference'')
     \<and> nullish (read (read document ''ParentDocumentLineReference'') ''DocumentReference'') \<Longrightarrow>
     extractID document attachment = Inl (TypeError ''ID'')"
proof -
  assume a: "nullish (attachment_id attachment) \<and> nullish document"
  show "extractID document attachment = Inl (TypeError ''ParentDocumentID'')"
    unfolding extractID_def attachment_links using a
    by (simp add: getProp_nullish andThen_def coalesce_def attachment_id_def split: if_splits)
next
  assume a: "\<not> nullish document \<and> nullish (early_id document attachment)
     \<and> \<not> nullish (read document ''ParentDocumentLineReference'')
     \<and> nullish (read (read document ''ParentDocumentLineReference'') ''DocumentReference'')"
  have lr: "andThen (getProp document ''ParentDocumentLineReference'')
              (\<lambda>l. opt_chain l (\<lambda>l. andThen (getProp l ''DocumentReference'')
                 (\<lambda>d. getProp d ''ID'')))
            = Inl (TypeError ''ID'')"
    using a by (simp add: getProp_read getProp_nullish andThen_def opt_chain_def)
  have pd: "andThen (getProp document ''ParentDocumentID'')
            (\<lambda>p. if p = Str ''null'' then Inr Null
                  else coalesce (getProp document ''ParentDocumentID'') (Inr Null))
          = Inr (if read document ''ParentDocumentID'' = Str ''null'' then Null
                 else if nullish (read document ''ParentDocumentID'') then Null
                 else read document ''ParentDocumentID'')"
    using a by (simp add: getProp_read andThen_def coalesce_Inr)
  show "extractID document attachment = Inl (TypeError ''ID'')"
    unfolding extractID_def attachment_links pd lr using a
    by (auto simp add: getProp_read coalesce_def early_id_def attachment_id_def split: if_splits)
qed

text \<open>
  Two documents. In the first the \<open>ParentDocumentID\<close> and the own \<open>ID\<close> both hold
  the string \<open>null\<close>: the first is passed over, the chain goes on, and the identifier
  extracted is the string \<open>null\<close> all the same. The second has a
  \<open>ParentDocumentLineReference\<close> without a \<open>DocumentReference\<close> and an own
  \<open>ID\<close>: the chain raises before it comes to that \<open>ID\<close>.
\<close>

theorem extractID_counterexample:
  "extractID (Obj [(''ParentDocumentID'', Str ''null''), (''ID'', Str ''null'')]) Undefined
     = Inr (Str ''null'')
   \<and> extractID (Obj [(''ParentDocumentLineReference'', Obj []), (''ID'', Str ''F-1'')]) Undefined
     = Inl (TypeError ''ID'')"
  by (simp add: extractID_def andThen_def coalesce_def opt_chain_def)

text \<open>
  Claim C4, as amended. Whenever the chain does not come to read a field off a holder that
  is missing, that is, whenever the document is there unless the attachment gives an
  identifier, and the \<open>ParentDocumentLineReference\<close>, if the document has one and no
  earlier link gives an identifier, carries a \<open>DocumentReference\<close>, the identifier
  extracted is the first value that is neither null nor undefined in the chain of the
  specification, the empty string when there is none. A \<open>ParentDocumentID\<close> that is
  the string \<open>null\<close> is taken as absent: the result is that of the chain without it,
  so it is the string \<open>null\<close> only when another field of the chain holds that string.
\<close>

theorem extractID_follows_chain:
  assumes "nullish (attachment_id attachment) \<longrightarrow> \<not> nullish document"
    and "nullish (early_id document attachment)
           \<and> \<not> nullish (read document ''ParentDocumentLineReference'')
         \<longrightarrow> \<not> nullish (read (read document ''ParentDocumentLineReference'') ''DocumentReference'')"
  shows "extractID document attachment = Inr (id_chain document attachment)
       \<and> (read document ''ParentDocumentID'' = Str ''null'' \<longrightarrow>
            id_chain document attachment = id_chain_without_parent document attachment)"
proof -
  let ?l = "read document ''ParentDocumentLineReference''"
  have chain: "extractID document attachment = Inr (id_chain document attachment)"
  proof (cases "nullish (attachment_id attachment)")
    case False
    then have "id_chain document attachment = attachment_id attachment"
      by (auto simp add: id_chain_def attachment_id_def split: if_splits)
    moreover have "extractID document attachment = Inr (attachment_id attachment)"
      unfolding extractID_def attachment_links using False by (simp add: coalesce_found)
    ultimately show ?thesis by simp
  next
    case True
    with assms(1) have doc: "\<not> nullish document" by simp
    have pd: "andThen (getProp document ''ParentDocumentID'')
            (\<lambda>p. if p = Str ''null'' then Inr Null
                  else coalesce (getProp document ''ParentDocumentID'') (Inr Null))
          = Inr (if read document ''ParentDocumentID'' = Str ''null'' then Null
                 else if nullish (read document ''ParentDocumentID'') then Null
                 else read document ''ParentDocumentID'')"
      using doc by (simp add: getProp_read andThen_def coalesce_Inr)
    show ?thesis
    proof (cases "nullish (early_id document attachment)")
      case early: True
      with assms(2) have "nullish ?l \<or> \<not> nullish (read ?l ''DocumentReference'')" by blast
      then have lr: "andThen (getProp document ''ParentDocumentLineReference'')
              (\<lambda>l. opt_chain l (\<lambda>l. andThen (getProp l ''DocumentReference'')
                 (\<lambda>d. getProp d ''ID'')))
            = Inr (read (read ?l ''DocumentReference'') ''ID'')"
        using doc by (auto simp add: getProp_read andThen_def opt_chain_def read_nullish)
      show ?thesis
        unfolding extractID_def pd lr opt_chain_read opt_chain_read_twice
        using doc by (simp add: id_chain_def getProp_read coalesce_Inr)
    next
      case early: False
      have five: "coalesce (coalesce
          (Inr (if nullish (attachment_id attachment)
                then read (read attachment ''CreditNote'') ''ID''
                else attachment_id attachment))
          (Inr (if read document ''ParentDocumentID'' = Str ''null'' then Null
                 else if nullish (read document ''ParentDocumentID'') then Null
                 else read document ''ParentDocumentID'')))
          (getProp document ''AltID'') = Inr (early_id document attachment)"
        using True early doc
        by (auto simp add: coalesce_Inr getProp_read early_id_def attachment_id_def
            split: if_splits)
      have "id_chain document attachment = early_id document attachment"
        using early by (auto simp add: id_chain_def early_id_def split: if_splits)
      moreover have "extractID document attachment = Inr (early_id document attachment)"
        unfolding extractID_def attachment_links pd five using early
        by (simp add: coalesce_found)
      ultimately show ?thesis by simp
    qed
  qed
  moreover have "read document ''ParentDocumentID'' = Str ''null'' \<longrightarrow>
      id_chain document attachment = id_chain_without_parent document attachment"
    by (simp add: id_chain_def id_chain_without_parent_def)
  ultimately show ?thesis by simp
qed

theorem extractID_follows_chain_witness:
  "extractID (Obj [(''ParentDocumentID'', Str ''null''), (''AltID'', Str ''F-9''),
                   (''ParentDocumentLineReference'', Obj []), (''ID'', Str ''F-1'')]) Undefined
     = Inr (Str ''F-9'')"
  using extractID_follows_chain [of Undefined "Obj [(''ParentDocumentID'', Str ''null''),
    (''AltID'', Str ''F-9''), (''ParentDocumentLineReference'', Obj []), (''ID'', Str ''F-1'')]"]
  by (simp add: read_def id_chain_def attachment_id_def early_id_def)

section \<open>The attachment router\<close>

lemma last_match_Cons:
  "last_match sfx (n # ns) =
     or_else (last_match sfx ns) (if matches sfx n then Some (part n) else None)"
  by (cases "rev (filter (matches sfx) ns)") (simp_all add: last_match_def or_else_def)

lemma classify_acc:
  "classify nodes (x, p, z) =
     (or_else (last_match ''.xml'' nodes) x,
      or_else (last_match ''.pdf'' nodes) p,
      or_else (last_match ''.zip'' nodes) z)"
proof (induction nodes arbitrary: x p z)
  case Nil
  show ?case by (simp add: last_match_def or_else_def)
next
  case (Cons n ns)
  show ?case
  proof (cases "disposition_filename n")
    case None
    then show ?thesis
      by (simp add: Cons.IH last_match_Cons matches_def or_else_def split: option.splits)
  next
    case (Some f)
    show ?thesis
    proof (cases "f = []")
      case True
      with Some show ?thesis
        by (simp add: Cons.IH last_match_Cons matches_def toLowerCase_def or_else_def
            split: option.splits)
    next
      case False
      with Some show ?thesis
        by (simp add: Cons.IH last_match_Cons matches_def or_else_def split: option.splits)
    qed
  qed
qed

lemma classify_from_none:
  "classify nodes (None, None, None) =
     (last_match ''.xml'' nodes, last_match ''.pdf'' nodes, last_match ''.zip'' nodes)"
  by (simp add: classify_acc or_else_def split: option.splits)

lemma last_match_truthy:
  assumes "\<forall>n \<in> set nodes. part n \<noteq> []"
  shows "truthy_node (last_match sfx nodes) \<longleftrightarrow> has_part sfx nodes"
proof (cases "rev (filter (matches sfx) nodes)")
  case Nil
  then show ?thesis
    by (auto simp add: last_match_def has_part_def truthy_node_def filter_empty_conv)
next
  case (Cons n ns)
  then have "n \<in> set (filter (matches sfx) nodes)"
    by (metis list.set_intros(1) set_rev)
  then show ?thesis using assms Cons
    by (auto simp add: last_match_def has_part_def truthy_node_def)
qed

text \<open>
  Two parts whose filenames both contain \<open>.xml\<close>: the router ends with the second,
  where the first-wins rule of the specification names the first.
\<close>

theorem classify_first_counterexample:
  "fst (classify [\<lparr>disposition_filename = Some ''a.xml'', part = ''1''\<rparr>,
                  \<lparr>disposition_filename = Some ''b.xml'', part = ''2''\<rparr>] (None, None, None))
   \<noteq> first_match ''.xml'' [\<lparr>disposition_filename = Some ''a.xml'', part = ''1''\<rparr>,
                  \<lparr>disposition_filename = Some ''b.xml'', part = ''2''\<rparr>]"
  by (simp add: first_match_def matches_def toLowerCase_def lower_char_def)

text \<open>
  Claim C3, as amended. For every part list, also one with several parts whose filenames
  match the same suffix, the router selects for each of \<open>.xml\<close>, \<open>.pdf\<close> and
  \<open>.zip\<close> the last part in list order whose filename contains the suffix without regard
  to case, and none when no filename does. The classification is a total function of the
  part list.
\<close>

theorem classify_selects_last:
  "classify nodes (None, None, None) =
     (last_match ''.xml'' nodes, last_match ''.pdf'' nodes, last_match ''.zip'' nodes)"
  by (rule classify_from_none)

theorem classify_selects_last_witness:
  "classify [\<lparr>disposition_filename = Some ''a.xml'', part = ''1''\<rparr>,
             \<lparr>disposition_filename = Some ''b.XML'', part = ''2''\<rparr>] (None, None, None)
     = (Some ''2'', None, None)"
  using classify_selects_last [of "[\<lparr>disposition_filename = Some ''a.xml'', part = ''1''\<rparr>,
             \<lparr>disposition_filename = Some ''b.XML'', part = ''2''\<rparr>]"]
  by (simp add: last_match_def matches_def toLowerCase_def lower_char_def)

text \<open>
  What the orchestrator runs on a message that has a part list, whose parts have non-empty
  part paths as the parts of a multipart message do: when some filename matches
  \<open>.xml\<close> and some matches \<open>.pdf\<close> it runs the direct-pair routine on the parts
  selected, whether or not a zip part is there as well, and never the bundle routine;
  otherwise, when some filename matches \<open>.zip\<close>, it makes a workspace and runs the
  bundle routine; otherwise it returns normally and leaves the world as it was.
\<close>

lemma strategy_selection:
  assumes "childNodes msg = Some nodes" and "\<forall>n \<in> set nodes. part n \<noteq> []"
  shows "processMessage env msg timestampDir w =
           (if has_part ''.xml'' nodes \<and> has_part ''.pdf'' nodes
            then (Inr (), snd (processXmlPdfNode env (the (last_match ''.xml'' nodes))
                                 (the (last_match ''.pdf'' nodes)) w))
            else if has_part ''.zip'' nodes
            then (case mkdtemp env timestampDir of
                    Inl e \<Rightarrow> (Inl e, emit [Mkdtemp timestampDir] w)
                  | Inr tmpdir \<Rightarrow>
                      (Inr (), processZipNode env (the (last_match ''.zip'' nodes)) tmpdir msg
                                 (emit [Mkdtemp timestampDir] w)))
            else (Inr (), w))"
  using assms
  by (simp add: classify_from_none strategy_of_def last_match_truthy processMessage_def)

lemma strategy_selection_demo:
  "strategy_of (classify (the (childNodes demo_msg_all)) (None, None, None)) = DirectPair ''1'' ''2''
   \<and> strategy_of (classify (the (childNodes demo_msg)) (None, None, None)) = Bundle ''2''"
  by (simp add: demo_msg_all_def demo_msg_def strategy_of_def truthy_node_def
      toLowerCase_def lower_char_def)

text \<open>
  Claim C7 says that every message is routed in one of three ways: to the direct pair when
  it has an xml and a pdf part, else to the bundle when it has a zip part, else it is
  skipped untouched, which is not an error. On a message with a part list the code does
  so. A single-part mail, such as a plain text message, has no part list: it has no xml,
  pdf or zip part, so it should be skipped, but the loop of line 177 raises a
  \<open>TypeError\<close> on it, \<open>#processMessage\<close> fails, and the \<open>catch\<close> of
  \<open>#fetchMessages\<close> releases the lock, logs out and ends the process. In the cycle
  below the plain mail comes first and the mail after it is never looked at.
\<close>

theorem single_part_message_is_fatal:
  "processMessage env \<lparr>uid = u, childNodes = None\<rparr> timestampDir w
     = (Inl (TypeError ''childNodes''), w)
   \<and> processMessages demo_env_plain demo_world =
       (Inr (), demo_world\<lparr>trace :=
          [Mkdir ''/data/202401010000/'', Fetch, ConsoleError ''childNodes'',
           LogError ''childNodes'' [], LockRelease, Logout, ProcessExit 1]\<rparr>)"
  by (simp add: processMessage_def processMessages_def fetchMessages_def fatal_def emit_def
      demo_env_plain_def demo_env_def plain_msg_def demo_world_def Let_def)

section \<open>The direct-pair routine\<close>

text \<open>
  Claim C8. The routine reads \<open>msg\<close>, which it does not declare. With no global of that
  name, its \<open>try\<close> block raises a \<open>ReferenceError\<close> before anything is called, and its
  \<open>catch\<close> block, after reporting on the console and through the logger, raises it again
  before it can call \<open>#moveMessage\<close>. So the routine's promise is rejected, no download
  is asked for, no file is written, the builder is not run and the message is moved
  nowhere: the two reports are all that is added to the trace, and the files are as before.
\<close>

theorem direct_pair_reference_error:
  assumes "global_object env ''msg'' = None"
  shows "processXmlPdfNode_try env xmlNode pdfNode w = (Inl (ReferenceError ''msg''), w)
       \<and> processXmlPdfNode env xmlNode pdfNode w =
           (Inl (ReferenceError ''msg''),
            w\<lparr>trace := trace w @
                 [ConsoleError ''msg'', LogError ''msg'' ''Error processing Message'']\<rparr>)"
  using assms
  by (simp add: processXmlPdfNode_def processXmlPdfNode_try_def free_msg_uid_def
      free_identifier_def andThen_def emit_def)

theorem direct_pair_reference_error_witness:
  "processXmlPdfNode demo_env ''1'' ''2'' demo_world =
     (Inl (ReferenceError ''msg''),
      demo_world\<lparr>trace := [ConsoleError ''msg'', LogError ''msg'' ''Error processing Message'']\<rparr>)"
  using direct_pair_reference_error [of demo_env "''1''" "''2''" demo_world]
  by (simp add: demo_env_def demo_world_def)

section \<open>The polling cycle\<close>

text \<open>
  Claim C10. In a cycle in which the client has no mailbox selected, or is not usable,
  and in which the directory of the cycle can be made, \<open>processMessages\<close> makes that
  directory and returns normally: making the directory is the only event, no message is
  fetched and none is processed.
\<close>

theorem no_mailbox_cycle:
  assumes "mkdir_error env (attachments_path env @ ''/'' @ now_stamp env @ ''/'') = None"
    and "is_boolean (client_mailbox env) \<or> \<not> client_usable env"
  shows "processMessages env w =
           (Inr (), w\<lparr>trace := trace w @
              [Mkdir (attachments_path env @ ''/'' @ now_stamp env @ ''/'')]\<rparr>)"
  using assms by (auto simp add: processMessages_def fetchMessages_def Let_def emit_def)

theorem no_mailbox_cycle_witness:
  "processMessages demo_env_no_mailbox demo_world =
     (Inr (), demo_world\<lparr>trace := [Mkdir ''/data/202401010000/'']\<rparr>)"
  using no_mailbox_cycle [of demo_env_no_mailbox demo_world]
  by (simp add: demo_env_no_mailbox_def demo_env_def demo_world_def)

section \<open>The bundle routine\<close>

lemma trace_emit: "trace (emit es w) = trace w @ es"
  by (simp add: emit_def)

lemma files_emit: "files (emit es w) = files w"
  by (simp add: emit_def)

lemma drained_append: "drained (xs @ ys) = drained xs @ drained ys"
  by (induction xs rule: drained.induct) simp_all

lemma unpack_entry_capture:
  "fst (unpack_entry env tmpdir entry c w) = entry_capture tmpdir entry c"
  by (simp add: unpack_entry_def entry_capture_def writeFile_def Let_def split: option.splits)

lemma unpack_entry_trace:
  "trace (snd (unpack_entry env tmpdir entry c w)) = trace w @ entry_events env tmpdir entry"
  by (simp add: unpack_entry_def entry_events_def writeFile_def Let_def trace_emit
      split: option.splits)

lemma unpack_entries_capture:
  "fst (unpack_entries env tmpdir entries c w) = foldl (\<lambda>c e. entry_capture tmpdir e c) c entries"
proof (induction entries arbitrary: c w)
  case Nil
  show ?case by simp
next
  case (Cons e es)
  obtain c' w' where u: "unpack_entry env tmpdir e c w = (c', w')"
    by (cases "unpack_entry env tmpdir e c w")
  then have "c' = entry_capture tmpdir e c"
    using unpack_entry_capture [of env tmpdir e c w] by simp
  then show ?case using u Cons.IH [of c' w'] by simp
qed

lemma unpack_entries_trace:
  "trace (snd (unpack_entries env tmpdir entries c w)) =
     trace w @ concat (map (entry_events env tmpdir) entries)"
proof (induction entries arbitrary: c w)
  case Nil
  show ?case by simp
next
  case (Cons e es)
  obtain c' w' where u: "unpack_entry env tmpdir e c w = (c', w')"
    by (cases "unpack_entry env tmpdir e c w")
  then have "trace w' = trace w @ entry_events env tmpdir e"
    using unpack_entry_trace [of env tmpdir e c w] by simp
  then show ?case using u Cons.IH [of c' w'] by simp
qed

lemma entry_events_unpack: "\<forall>e \<in> set (entry_events env tmpdir entry). unpack_event e"
  by (auto simp add: entry_events_def Let_def split: option.splits)

lemma entry_events_drained: "drained (entry_events env tmpdir entry) = [entry_path entry]"
  by (simp add: entry_events_def Let_def split: option.splits)

lemma concat_entry_events_drained:
  "drained (concat (map (entry_events env tmpdir) entries)) = map entry_path entries"
  by (induction entries) (simp_all add: drained_append entry_events_drained)

lemma capture_xml:
  "xml (foldl (\<lambda>c e. entry_capture tmpdir e c) c entries) \<noteq> None \<longleftrightarrow>
     xml c \<noteq> None \<or> (\<exists>e \<in> set entries. js_includes (entry_path e) ''.xml'')"
  by (induction entries arbitrary: c) (auto simp add: entry_capture_def Let_def)

lemma capture_pdf:
  "pdf (foldl (\<lambda>c e. entry_capture tmpdir e c) c entries) \<noteq> None \<longleftrightarrow>
     pdf c \<noteq> None \<or> (\<exists>e \<in> set entries. js_includes (entry_path e) ''.pdf'')"
  by (induction entries arbitrary: c) (auto simp add: entry_capture_def Let_def)

lemma capture_json:
  "jsonPath c = replace (xmlPath c) ''.xml'' ''.json'' \<Longrightarrow>
   jsonPath (foldl (\<lambda>c e. entry_capture tmpdir e c) c entries) =
     replace (xmlPath (foldl (\<lambda>c e. entry_capture tmpdir e c) c entries)) ''.xml'' ''.json''"
  by (induction entries arbitrary: c) (auto simp add: entry_capture_def Let_def)

lemma unpack_quiet: "unpack_event e \<Longrightarrow> quiet e"
  by (cases e) simp_all

lemma unpack_not_exec: "unpack_event e \<Longrightarrow> e \<noteq> Exec j x p"
  by (cases e) simp_all

lemma concat_entry_events_unpack:
  "\<forall>e \<in> set (concat (map (entry_events env tmpdir) entries)). unpack_event e"
  using entry_events_unpack by auto

lemma moveMessage_events_no_exec: "Exec j x p \<notin> set (moveMessage_events env u m)"
  by (simp add: moveMessage_events_def split: sum.splits)

lemma build_and_route_trace:
  "\<exists>pre. (\<forall>e \<in> set pre. quiet e) \<and>
     (case fst (build_and_route env tmpdir msg c w) of
        Inl e \<Rightarrow> trace (snd (build_and_route env tmpdir msg c w)) = trace w @ pre
      | Inr _ \<Rightarrow> trace (snd (build_and_route env tmpdir msg c w)) =
          trace w @ pre @ moveMessage_events env (uid msg) (good_mailbox env) @ [Rm tmpdir])"
proof (cases "parser_parse env (files w) (xmlPath c)")
  case (Inl e)
  then have "fst (build_and_route env tmpdir msg c w) = Inl e"
    and "trace (snd (build_and_route env tmpdir msg c w)) = trace w @ [ParserParse (xmlPath c)]"
    by (simp_all add: build_and_route_def files_emit trace_emit)
  then show ?thesis
    by (intro exI [of _ "[ParserParse (xmlPath c)]"]) simp
next
  case (Inr r)
  show ?thesis
  proof (cases r)
    case None
    with Inr have "fst (build_and_route env tmpdir msg c w) = Inl (Error ''Could not get data from XML'')"
      and "trace (snd (build_and_route env tmpdir msg c w)) = trace w @ [ParserParse (xmlPath c)]"
      by (simp_all add: build_and_route_def files_emit trace_emit)
    then show ?thesis
      by (intro exI [of _ "[ParserParse (xmlPath c)]"]) simp
  next
    case (Some data)
    show ?thesis
    proof (cases "write_error env (jsonPath c)")
      case (Some e)
      with Inr \<open>r = Some data\<close>
      have "fst (build_and_route env tmpdir msg c w) = Inl e"
        and "trace (snd (build_and_route env tmpdir msg c w)) =
               trace w @ [ParserParse (xmlPath c), WriteFile (jsonPath c) (stringify env data) False]"
        by (simp_all add: build_and_route_def files_emit trace_emit writeFile_def)
      then show ?thesis
        by (intro exI [of _ "[ParserParse (xmlPath c), WriteFile (jsonPath c) (stringify env data) False]"]) simp
    next
      case None
      let ?pre = "[ParserParse (xmlPath c), WriteFile (jsonPath c) (stringify env data) True,
                   Exec (jsonPath c) (xmlPath c) (pdfPath c)]"
      show ?thesis
      proof (cases "exec_error env ((files w)(jsonPath c \<mapsto> stringify env data))
                      (jsonPath c) (xmlPath c) (pdfPath c)")
        case (Some e)
        with Inr \<open>r = Some data\<close> None
        have "fst (build_and_route env tmpdir msg c w) = Inl e"
          and "trace (snd (build_and_route env tmpdir msg c w)) = trace w @ ?pre"
          by (simp_all add: build_and_route_def run_builder_def files_emit trace_emit writeFile_def
              exec_def)
        then show ?thesis by (intro exI [of _ ?pre]) simp
      next
        case None2: None
        with Inr \<open>r = Some data\<close> None
        have "fst (build_and_route env tmpdir msg c w) = Inr ()"
          and "trace (snd (build_and_route env tmpdir msg c w)) =
                 trace w @ ?pre @ moveMessage_events env (uid msg) (good_mailbox env) @ [Rm tmpdir]"
          by (simp_all add: build_and_route_def run_builder_def files_emit trace_emit writeFile_def
              exec_def moveMessage_def)
        then show ?thesis by (intro exI [of _ ?pre]) simp
      qed
    qed
  qed
qed

lemma processZipNode_try_trace:
  "\<exists>pre. (\<forall>e \<in> set pre. quiet e) \<and>
     (case fst (processZipNode_try env z tmpdir msg w) of
        Inl e \<Rightarrow> trace (snd (processZipNode_try env z tmpdir msg w)) = trace w @ pre
      | Inr _ \<Rightarrow> trace (snd (processZipNode_try env z tmpdir msg w)) =
          trace w @ pre @ moveMessage_events env (uid msg) (good_mailbox env) @ [Rm tmpdir])"
proof (cases "download env (uid msg) z")
  case (Inl e)
  then have "fst (processZipNode_try env z tmpdir msg w) = Inl e"
    and "trace (snd (processZipNode_try env z tmpdir msg w)) = trace w @ [Download (uid msg) z]"
    by (simp_all add: processZipNode_try_def trace_emit)
  then show ?thesis by (intro exI [of _ "[Download (uid msg) z]"]) simp
next
  case (Inr d)
  show ?thesis
  proof (cases "meta_expectedSize d > 4 * 1024 * 1024")
    case True
    with Inr have "fst (processZipNode_try env z tmpdir msg w) = Inl (Error ''Size too big'')"
      and "trace (snd (processZipNode_try env z tmpdir msg w)) = trace w @ [Download (uid msg) z]"
      by (simp_all add: processZipNode_try_def trace_emit)
    then show ?thesis by (intro exI [of _ "[Download (uid msg) z]"]) simp
  next
    case False
    obtain entries stream_error where uz: "unzip env (content d) = (entries, stream_error)"
      by (cases "unzip env (content d)")
    let ?w0 = "emit [Download (uid msg) z] w"
    obtain c w1 where up: "unpack_entries env tmpdir entries no_capture ?w0 = (c, w1)"
      by (cases "unpack_entries env tmpdir entries no_capture ?w0")
    let ?loop = "Download (uid msg) z # concat (map (entry_events env tmpdir) entries)"
    have t1: "trace w1 = trace w @ ?loop"
      using unpack_entries_trace [of env tmpdir entries no_capture ?w0] up
      by (simp add: trace_emit)
    have q1: "\<forall>e \<in> set ?loop. quiet e"
      using concat_entry_events_unpack [of env tmpdir entries] unpack_quiet by auto
    show ?thesis
    proof (cases stream_error)
      case (Some e)
      with Inr False uz up
      have "fst (processZipNode_try env z tmpdir msg w) = Inl e"
        and "snd (processZipNode_try env z tmpdir msg w) = w1"
        by (simp_all add: processZipNode_try_def)
      then show ?thesis using t1 q1 by (intro exI [of _ ?loop]) simp
    next
      case None
      show ?thesis
      proof (cases "xml c \<noteq> None \<and> pdf c \<noteq> None")
        case False
        with Inr \<open>\<not> meta_expectedSize d > 4 * 1024 * 1024\<close> uz up None
        have "fst (processZipNode_try env z tmpdir msg w) = Inl (Error msg_no_invoice)"
          and "snd (processZipNode_try env z tmpdir msg w) = w1"
          by (auto simp add: processZipNode_try_def)
        then show ?thesis using t1 q1 by (intro exI [of _ ?loop]) simp
      next
        case True
        with Inr \<open>\<not> meta_expectedSize d > 4 * 1024 * 1024\<close> uz up None
        have eq: "processZipNode_try env z tmpdir msg w = build_and_route env tmpdir msg c w1"
          by (auto simp add: processZipNode_try_def)
        obtain pre where pre: "\<forall>e \<in> set pre. quiet e"
          "case fst (build_and_route env tmpdir msg c w1) of
             Inl e \<Rightarrow> trace (snd (build_and_route env tmpdir msg c w1)) = trace w1 @ pre
           | Inr _ \<Rightarrow> trace (snd (build_and_route env tmpdir msg c w1)) =
               trace w1 @ pre @ moveMessage_events env (uid msg) (good_mailbox env) @ [Rm tmpdir]"
          using build_and_route_trace [of env tmpdir msg c w1] by blast
        show ?thesis
          using pre q1 t1 unfolding eq
          by (intro exI [of _ "?loop @ pre"]) (auto split: sum.splits)
      qed
    qed
  qed
qed

lemma build_and_route_exec:
  assumes "Exec j x p \<in> set (trace (snd (build_and_route env tmpdir msg c w)))"
    and "Exec j x p \<notin> set (trace w)"
  shows "\<exists>data w2. parser_parse env (files w) (xmlPath c) = Inr (Some data)
      \<and> j = jsonPath c \<and> x = xmlPath c \<and> p = pdfPath c
      \<and> writeFile env j (stringify env data) (emit [ParserParse x] w) = (Inr (), w2)
      \<and> files w2 j = Some (stringify env data)
      \<and> trace w2 = trace w @ [ParserParse x, WriteFile j (stringify env data) True]
      \<and> build_and_route env tmpdir msg c w = run_builder env tmpdir msg c w2
      \<and> (\<exists>post. trace (snd (run_builder env tmpdir msg c w2)) = trace w2 @ [Exec j x p] @ post)"
proof (cases "parser_parse env (files w) (xmlPath c)")
  case (Inl e)
  then have "trace (snd (build_and_route env tmpdir msg c w)) = trace w @ [ParserParse (xmlPath c)]"
    by (simp add: build_and_route_def files_emit trace_emit)
  with assms show ?thesis by simp
next
  case (Inr r)
  show ?thesis
  proof (cases r)
    case None
    with Inr have "trace (snd (build_and_route env tmpdir msg c w)) = trace w @ [ParserParse (xmlPath c)]"
      by (simp add: build_and_route_def files_emit trace_emit)
    with assms show ?thesis by simp
  next
    case (Some data)
    show ?thesis
    proof (cases "write_error env (jsonPath c)")
      case (Some e)
      with Inr \<open>r = Some data\<close>
      have "trace (snd (build_and_route env tmpdir msg c w)) =
               trace w @ [ParserParse (xmlPath c), WriteFile (jsonPath c) (stringify env data) False]"
        by (simp add: build_and_route_def files_emit trace_emit writeFile_def)
      with assms show ?thesis by simp
    next
      case None
      define w2 where "w2 = emit [WriteFile (jsonPath c) (stringify env data) True]
        ((emit [ParserParse (xmlPath c)] w)\<lparr>files := (files w)(jsonPath c \<mapsto> stringify env data)\<rparr>)"
      have b: "build_and_route env tmpdir msg c w = run_builder env tmpdir msg c w2"
        using Inr \<open>r = Some data\<close> None
        by (simp add: build_and_route_def files_emit writeFile_def w2_def)
      have wf: "writeFile env (jsonPath c) (stringify env data) (emit [ParserParse (xmlPath c)] w)
                  = (Inr (), w2)"
        using None by (simp add: writeFile_def w2_def files_emit)
      have f2: "files w2 (jsonPath c) = Some (stringify env data)"
        by (simp add: w2_def emit_def)
      have t2: "trace w2 = trace w @ [ParserParse (xmlPath c), WriteFile (jsonPath c) (stringify env data) True]"
        by (simp add: w2_def emit_def)
      have r: "\<exists>post. trace (snd (run_builder env tmpdir msg c w2)) =
                  trace w2 @ [Exec (jsonPath c) (xmlPath c) (pdfPath c)] @ post
                \<and> Exec j x p \<notin> set post"
        by (cases "exec_error env (files w2) (jsonPath c) (xmlPath c) (pdfPath c)")
          (simp_all add: run_builder_def exec_def trace_emit moveMessage_def
            moveMessage_events_no_exec)
      then obtain post where post:
        "trace (snd (run_builder env tmpdir msg c w2)) =
           trace w2 @ [Exec (jsonPath c) (xmlPath c) (pdfPath c)] @ post"
        "Exec j x p \<notin> set post" by blast
      from assms b post t2 have "Exec j x p = Exec (jsonPath c) (xmlPath c) (pdfPath c)"
        by auto
      then have "j = jsonPath c" "x = xmlPath c" "p = pdfPath c" by simp_all
      then show ?thesis using Inr \<open>r = Some data\<close> b wf f2 t2 post(1)
        by (intro exI [of _ data] exI [of _ w2]) simp
    qed
  qed
qed

lemma no_capture_json: "jsonPath no_capture = replace (xmlPath no_capture) ''.xml'' ''.json''"
  by (simp add: no_capture_def)

lemma processZipNode_trace_of_try:
  "\<exists>post. trace (processZipNode env z tmpdir msg w) =
       trace (snd (processZipNode_try env z tmpdir msg w)) @ post
     \<and> Exec j x p \<notin> set post"
proof (cases "processZipNode_try env z tmpdir msg w")
  case (Pair r w')
  show ?thesis
  proof (cases r)
    case (Inl e)
    with Pair show ?thesis
      by (simp add: processZipNode_def moveMessage_def trace_emit moveMessage_events_no_exec)
  next
    case (Inr u)
    with Pair show ?thesis by (simp add: processZipNode_def)
  qed
qed

lemma entry_events_console:
  assumes "e \<in> set entries" and "js_includes (entry_path e) ''.xml''"
    and "write_error env (tmpdir @ ''/'' @ entry_path e) = Some err"
  shows "ConsoleError (message err) \<in> set (concat (map (entry_events env tmpdir) entries))"
proof -
  have "ConsoleError (message err) \<in> set (entry_events env tmpdir e)"
    using assms(2,3) by (simp add: entry_events_def Let_def)
  with assms(1) show ?thesis by auto
qed

lemma entry_events_logger:
  assumes "e \<in> set entries" and "js_includes (entry_path e) ''.pdf''"
    and "write_error env (tmpdir @ ''/'' @ entry_path e) = Some err"
  shows "LogError (message err) [] \<in> set (concat (map (entry_events env tmpdir) entries))"
proof -
  have "LogError (message err) [] \<in> set (entry_events env tmpdir e)"
    using assms(2,3) by (simp add: entry_events_def Let_def)
  with assms(1) show ?thesis by auto
qed

subsection \<open>The concrete runs\<close>

lemma demo_ok_trace:
  "trace (processZipNode demo_env ''2'' ''/w'' demo_msg demo_world) =
  [Download ''7'' ''2'', WriteFile ''/w/f.xml'' ''<Invoice/>'' True, Drain ''f.xml'',
   WriteFile ''/w/f.pdf'' ''%PDF'' True, Drain ''f.pdf'', ParserParse ''/w/f.xml'',
   WriteFile ''/w/f.json'' ''{}'' True, Exec ''/w/f.json'' ''/w/f.xml'' ''/w/f.pdf'',
   LogInfo ''Requesting move to Processed - MSG: 7'', MessageMove ''7'' ''Processed'',
   LogInfo ''Message moved to Processed - MSG: 7'', Rm ''/w'']"
  by (simp add: processZipNode_def processZipNode_try_def demo_env_def demo_msg_def demo_world_def
     unpack_entry_def build_and_route_def run_builder_def writeFile_def exec_def moveMessage_def
     moveMessage_events_def
     emit_def no_capture_def parse_def parseXML_def parse_file_def parseXML_tree_def demo_xml_parse_def
     demo_tree_def extractAttachmentBilling_def extractAttachment_def extractID_def extractValue_def
     extractEntityData_def entity_field_def andThen_def coalesce_def opt_chain_def Let_def)

lemma demo_ok_try: "fst (processZipNode_try demo_env ''2'' ''/w'' demo_msg demo_world) = Inr ()"
  by (simp add: processZipNode_try_def demo_env_def demo_msg_def demo_world_def
     unpack_entry_def build_and_route_def run_builder_def writeFile_def exec_def moveMessage_def
     emit_def no_capture_def parse_def parseXML_def parse_file_def parseXML_tree_def demo_xml_parse_def
     demo_tree_def extractAttachmentBilling_def extractAttachment_def extractID_def extractValue_def
     extractEntityData_def entity_field_def andThen_def coalesce_def opt_chain_def Let_def)

lemma demo_readonly_try:
  "processZipNode_try demo_env_readonly ''2'' ''/w'' demo_msg demo_world =
     (Inl (Error ''ENOENT: no such file or directory, open /w/f.xml''),
      \<lparr>files = Map.empty, trace =
        [Download ''7'' ''2'', WriteFile ''/w/f.xml'' ''<Invoice/>'' False,
         ConsoleError ''EACCES'', Drain ''f.xml'', WriteFile ''/w/f.pdf'' ''%PDF'' False,
         LogError ''EACCES'' [], Drain ''f.pdf'', ParserParse ''/w/f.xml'']\<rparr>)"
  by (simp add: processZipNode_try_def demo_env_readonly_def demo_env_def demo_msg_def
      demo_world_def unpack_entry_def build_and_route_def writeFile_def emit_def no_capture_def
      parse_def parseXML_def parse_file_def andThen_def Let_def)

subsection \<open>Entries whose write fails\<close>

text \<open>
  A bundle with an xml and a pdf entry, unpacked into a workspace that rejects every
  write. Both entries stay recorded, the routine goes on to the parser, and what ends the
  \<open>try\<close> block is the parser's failure to read the xml file that was never written,
  not the error of a bundle without an invoice.
\<close>

theorem unwritten_entries_counterexample:
  "write_error demo_env_readonly ''/w/f.xml'' \<noteq> None
   \<and> write_error demo_env_readonly ''/w/f.pdf'' \<noteq> None
   \<and> fst (processZipNode_try demo_env_readonly ''2'' ''/w'' demo_msg demo_world)
       \<noteq> Inl (Error msg_no_invoice)"
  by (simp add: demo_readonly_try msg_no_invoice_def) (simp add: demo_env_readonly_def)

text \<open>
  Claim C5, as amended. For a bundle that is downloaded, is within the size limit and
  whose stream does not break: a write that fails is reported, on the console for an xml
  entry and through the logger for a pdf entry, and does not end the unpacking, every
  entry being drained in order. The entry stays recorded all the same: an xml (pdf) entry
  counts as found exactly when some entry's path contains \<open>.xml\<close> (\<open>.pdf\<close>),
  whether or not its write succeeded. So a bundle with both goes on to the parser even if
  every write failed, and a bundle that lacks one of them ends with the error of a bundle
  without an invoice.
\<close>

theorem unpack_keeps_failed_entries:
  assumes "download env (uid msg) z = Inr d"
    and "meta_expectedSize d \<le> 4 * 1024 * 1024"
    and "unzip env (content d) = (entries, None)"
  shows "drained (trace (snd (unpacked env tmpdir msg z entries w))) =
           drained (trace w) @ map entry_path entries
     \<and> (xml (fst (unpacked env tmpdir msg z entries w)) \<noteq> None \<longleftrightarrow>
           (\<exists>e \<in> set entries. js_includes (entry_path e) ''.xml''))
     \<and> (pdf (fst (unpacked env tmpdir msg z entries w)) \<noteq> None \<longleftrightarrow>
           (\<exists>e \<in> set entries. js_includes (entry_path e) ''.pdf''))
     \<and> (\<forall>e \<in> set entries. \<forall>err.
           js_includes (entry_path e) ''.xml''
           \<and> write_error env (tmpdir @ ''/'' @ entry_path e) = Some err
           \<longrightarrow> ConsoleError (message err) \<in> set (trace (snd (unpacked env tmpdir msg z entries w))))
     \<and> (\<forall>e \<in> set entries. \<forall>err.
           js_includes (entry_path e) ''.pdf''
           \<and> write_error env (tmpdir @ ''/'' @ entry_path e) = Some err
           \<longrightarrow> LogError (message err) [] \<in> set (trace (snd (unpacked env tmpdir msg z entries w))))
     \<and> processZipNode_try env z tmpdir msg w =
         (if (\<exists>e \<in> set entries. js_includes (entry_path e) ''.xml'')
             \<and> (\<exists>e \<in> set entries. js_includes (entry_path e) ''.pdf'')
          then build_and_route env tmpdir msg (fst (unpacked env tmpdir msg z entries w))
                 (snd (unpacked env tmpdir msg z entries w))
          else (Inl (Error msg_no_invoice), snd (unpacked env tmpdir msg z entries w)))"
proof -
  let ?w0 = "emit [Download (uid msg) z] w"
  obtain c w1 where up: "unpack_entries env tmpdir entries no_capture ?w0 = (c, w1)"
    by (cases "unpack_entries env tmpdir entries no_capture ?w0")
  then have un: "unpacked env tmpdir msg z entries w = (c, w1)"
    by (simp add: unpacked_def)
  have t1: "trace w1 = trace w @ Download (uid msg) z # concat (map (entry_events env tmpdir) entries)"
    using unpack_entries_trace [of env tmpdir entries no_capture ?w0] up by (simp add: trace_emit)
  have c: "c = foldl (\<lambda>c e. entry_capture tmpdir e c) no_capture entries"
    using unpack_entries_capture [of env tmpdir entries no_capture ?w0] up by simp
  have d: "drained (trace w1) = drained (trace w) @ map entry_path entries"
    by (simp add: t1 drained_append concat_entry_events_drained)
  have x: "xml c \<noteq> None \<longleftrightarrow> (\<exists>e \<in> set entries. js_includes (entry_path e) ''.xml'')"
    unfolding c capture_xml by (simp add: no_capture_def)
  have p: "pdf c \<noteq> None \<longleftrightarrow> (\<exists>e \<in> set entries. js_includes (entry_path e) ''.pdf'')"
    unfolding c capture_pdf by (simp add: no_capture_def)
  have r1: "\<forall>e \<in> set entries. \<forall>err.
           js_includes (entry_path e) ''.xml''
           \<and> write_error env (tmpdir @ ''/'' @ entry_path e) = Some err
           \<longrightarrow> ConsoleError (message err) \<in> set (trace w1)"
    using entry_events_console [of _ entries env tmpdir] by (auto simp add: t1)
  have r2: "\<forall>e \<in> set entries. \<forall>err.
           js_includes (entry_path e) ''.pdf''
           \<and> write_error env (tmpdir @ ''/'' @ entry_path e) = Some err
           \<longrightarrow> LogError (message err) [] \<in> set (trace w1)"
    using entry_events_logger [of _ entries env tmpdir] by (auto simp add: t1)
  have t: "processZipNode_try env z tmpdir msg w =
         (if xml c \<noteq> None \<and> pdf c \<noteq> None then build_and_route env tmpdir msg c w1
          else (Inl (Error msg_no_invoice), w1))"
    using assms up by (simp add: processZipNode_try_def)
  show ?thesis unfolding un fst_conv snd_conv using d x p r1 r2 t by simp
qed

theorem unpack_keeps_failed_entries_witness:
  "ConsoleError ''EACCES'' \<in> set (trace (snd (unpacked demo_env_readonly ''/w'' demo_msg ''2''
      [\<lparr>entry_path = ''f.xml'', entry_data = ''<Invoice/>''\<rparr>,
       \<lparr>entry_path = ''f.pdf'', entry_data = ''%PDF''\<rparr>] demo_world)))
   \<and> LogError ''EACCES'' [] \<in> set (trace (snd (unpacked demo_env_readonly ''/w'' demo_msg ''2''
      [\<lparr>entry_path = ''f.xml'', entry_data = ''<Invoice/>''\<rparr>,
       \<lparr>entry_path = ''f.pdf'', entry_data = ''%PDF''\<rparr>] demo_world)))
   \<and> drained (trace (snd (unpacked demo_env_readonly ''/w'' demo_msg ''2''
      [\<lparr>entry_path = ''f.xml'', entry_data = ''<Invoice/>''\<rparr>,
       \<lparr>entry_path = ''f.pdf'', entry_data = ''%PDF''\<rparr>] demo_world))) = [''f.xml'', ''f.pdf'']"
proof -
  have d: "download demo_env_readonly (uid demo_msg) ''2'' =
      Inr \<lparr>content = ''PK'', meta_filename = ''bundle.zip'', meta_expectedSize = 1000\<rparr>"
    by (simp add: demo_env_readonly_def demo_env_def)
  have s: "meta_expectedSize \<lparr>content = ''PK'', meta_filename = ''bundle.zip'',
      meta_expectedSize = 1000\<rparr> \<le> 4 * 1024 * 1024" by simp
  have u: "unzip demo_env_readonly (content \<lparr>content = ''PK'', meta_filename = ''bundle.zip'',
      meta_expectedSize = 1000\<rparr>) =
      ([\<lparr>entry_path = ''f.xml'', entry_data = ''<Invoice/>''\<rparr>,
        \<lparr>entry_path = ''f.pdf'', entry_data = ''%PDF''\<rparr>], None)"
    by (simp add: demo_env_readonly_def demo_env_def)
  have e: "write_error demo_env_readonly = (\<lambda>p. Some (Error ''EACCES''))"
    by (simp add: demo_env_readonly_def)
  from unpack_keeps_failed_entries [OF d s u, of "''/w''" demo_world]
  show ?thesis by (simp add: e demo_world_def)
qed

subsection \<open>The removal of the workspace\<close>

text \<open>
  The run in which everything succeeds: the message is moved to the success mailbox, and
  only after that is the removal of the workspace started.
\<close>

theorem removal_after_move_counterexample:
  "MessageMove ''7'' ''Processed'' \<in> set (trace (processZipNode demo_env ''2'' ''/w'' demo_msg demo_world))
   \<and> \<not> occurs_before (Rm ''/w'') (MessageMove ''7'' ''Processed'')
          (trace (processZipNode demo_env ''2'' ''/w'' demo_msg demo_world))"
  by (simp add: demo_ok_trace occurs_before_def)

text \<open>
  The shape of the routine's trace: events that neither remove nor move, then the removal
  and the move in one of the two orders.
\<close>

lemma processZipNode_trace_shape:
  "\<exists>pre. (\<forall>e \<in> set pre. quiet e) \<and>
     (case fst (processZipNode_try env z tmpdir msg w) of
        Inl e \<Rightarrow> trace (processZipNode env z tmpdir msg w) =
          trace w @ pre @ [Rm tmpdir] @ moveMessage_events env (uid msg) (bad_mailbox env)
      | Inr _ \<Rightarrow> trace (processZipNode env z tmpdir msg w) =
          trace w @ pre @ moveMessage_events env (uid msg) (good_mailbox env) @ [Rm tmpdir])"
proof -
  obtain pre where pre: "\<forall>e \<in> set pre. quiet e"
    "case fst (processZipNode_try env z tmpdir msg w) of
        Inl e \<Rightarrow> trace (snd (processZipNode_try env z tmpdir msg w)) = trace w @ pre
      | Inr _ \<Rightarrow> trace (snd (processZipNode_try env z tmpdir msg w)) =
          trace w @ pre @ moveMessage_events env (uid msg) (good_mailbox env) @ [Rm tmpdir]"
    using processZipNode_try_trace [of env z tmpdir msg w] by blast
  obtain r w' where t: "processZipNode_try env z tmpdir msg w = (r, w')"
    by (cases "processZipNode_try env z tmpdir msg w")
  show ?thesis
  proof (cases r)
    case (Inl e)
    let ?pre = "pre @ [ConsoleError (message e), LogError (message e) ''Could not process mail data'']"
    have "trace (processZipNode env z tmpdir msg w) =
            trace w @ ?pre @ [Rm tmpdir] @ moveMessage_events env (uid msg) (bad_mailbox env)"
      using pre(2) t Inl by (simp add: processZipNode_def moveMessage_def trace_emit)
    moreover have "\<forall>e \<in> set ?pre. quiet e" using pre(1) by simp
    ultimately show ?thesis using t Inl by (intro exI [of _ ?pre]) simp
  next
    case (Inr u)
    then have "trace (processZipNode env z tmpdir msg w) =
            trace w @ pre @ moveMessage_events env (uid msg) (good_mailbox env) @ [Rm tmpdir]"
      using pre(2) t by (simp add: processZipNode_def)
    then show ?thesis using t Inr pre(1) by (intro exI [of _ pre]) simp
  qed
qed

lemma moveMessage_events_loud:
  "filter (\<lambda>e. \<not> quiet e) (moveMessage_events env u m) = [MessageMove u m]"
  by (simp add: moveMessage_events_def split: sum.splits)

lemma filter_quiet: "\<forall>e \<in> set pre. quiet e \<Longrightarrow> filter (\<lambda>e. \<not> quiet e) pre = []"
  by (simp add: filter_empty_conv)

text \<open>
  Claim C6, as amended. Of the events the bundle routine adds to the trace, those that
  start the removal of a workspace or move a message are exactly two, in this order: when
  the \<open>try\<close> block fails, the start of the removal of the message's workspace and then
  the move to the failure mailbox; when it succeeds, the move to the success mailbox and
  then the start of the removal. (The removal is not awaited, so the trace has its start,
  not its completion.)
\<close>

theorem bundle_workspace_removal:
  "filter (\<lambda>e. \<not> quiet e)
     (drop (length (trace w)) (trace (processZipNode env z tmpdir msg w))) =
     (case fst (processZipNode_try env z tmpdir msg w) of
        Inl e \<Rightarrow> [Rm tmpdir, MessageMove (uid msg) (bad_mailbox env)]
      | Inr _ \<Rightarrow> [MessageMove (uid msg) (good_mailbox env), Rm tmpdir])"
proof -
  obtain pre where pre: "\<forall>e \<in> set pre. quiet e"
    "case fst (processZipNode_try env z tmpdir msg w) of
        Inl e \<Rightarrow> trace (processZipNode env z tmpdir msg w) =
          trace w @ pre @ [Rm tmpdir] @ moveMessage_events env (uid msg) (bad_mailbox env)
      | Inr _ \<Rightarrow> trace (processZipNode env z tmpdir msg w) =
          trace w @ pre @ moveMessage_events env (uid msg) (good_mailbox env) @ [Rm tmpdir]"
    using processZipNode_trace_shape [of env z tmpdir msg w] by blast
  show ?thesis
  proof (cases "fst (processZipNode_try env z tmpdir msg w)")
    case (Inl e)
    with pre(2) have "trace (processZipNode env z tmpdir msg w) =
          trace w @ pre @ [Rm tmpdir] @ moveMessage_events env (uid msg) (bad_mailbox env)"
      by simp
    then show ?thesis using Inl pre(1)
      by (simp add: filter_quiet moveMessage_events_loud)
  next
    case (Inr u)
    with pre(2) have "trace (processZipNode env z tmpdir msg w) =
          trace w @ pre @ moveMessage_events env (uid msg) (good_mailbox env) @ [Rm tmpdir]"
      by simp
    then show ?thesis using Inr pre(1)
      by (simp add: filter_quiet moveMessage_events_loud)
  qed
qed

theorem bundle_workspace_removal_witness:
  "filter (\<lambda>e. \<not> quiet e) (trace (processZipNode demo_env ''2'' ''/w'' demo_msg demo_world))
     = [MessageMove ''7'' ''Processed'', Rm ''/w'']"
  using bundle_workspace_removal [of demo_world demo_env "''2''" "''/w''" demo_msg]
  by (simp add: demo_ok_try) (simp add: demo_world_def demo_msg_def demo_env_def)

subsection \<open>The builder and the json file\<close>

text \<open>
  Claim C9. Whenever the bundle routine runs the builder on \<open>(j, x, p)\<close>, an xml and a
  pdf entry were recorded with paths \<open>x\<close> and \<open>p\<close>, \<open>j\<close> is \<open>x\<close> with its
  first \<open>.xml\<close> replaced by \<open>.json\<close>, the parser returned a billing for \<open>x\<close>,
  and the write of that billing, serialized, to \<open>j\<close> succeeded just before: the builder
  is run in a world whose file \<open>j\<close> holds the serialized billing, and its run is the
  next event after that write.
\<close>

theorem builder_after_json:
  assumes "Exec j x p \<in> set (trace (processZipNode env z tmpdir msg w))"
    and "Exec j x p \<notin> set (trace w)"
  shows "\<exists>c data w1 w2 post.
       xml c \<noteq> None \<and> pdf c \<noteq> None \<and> x = xmlPath c \<and> p = pdfPath c \<and> j = jsonPath c
     \<and> j = replace x ''.xml'' ''.json''
     \<and> parser_parse env (files w1) x = Inr (Some data)
     \<and> writeFile env j (stringify env data) (emit [ParserParse x] w1) = (Inr (), w2)
     \<and> files w2 j = Some (stringify env data)
     \<and> processZipNode_try env z tmpdir msg w = run_builder env tmpdir msg c w2
     \<and> trace (processZipNode env z tmpdir msg w) = trace w2 @ [Exec j x p] @ post"
proof -
  obtain post0 where post0:
    "trace (processZipNode env z tmpdir msg w) =
       trace (snd (processZipNode_try env z tmpdir msg w)) @ post0"
    "Exec j x p \<notin> set post0"
    using processZipNode_trace_of_try [of env z tmpdir msg w j x p] by blast
  with assms(1) have in_try: "Exec j x p \<in> set (trace (snd (processZipNode_try env z tmpdir msg w)))"
    by auto
  let ?w0 = "emit [Download (uid msg) z] w"
  have w0: "Exec j x p \<notin> set (trace ?w0)" using assms(2) by (simp add: trace_emit)
  show ?thesis
  proof (cases "download env (uid msg) z")
    case (Inl e)
    then have "snd (processZipNode_try env z tmpdir msg w) = ?w0"
      by (simp add: processZipNode_try_def)
    with in_try w0 show ?thesis by simp
  next
    case (Inr d)
    show ?thesis
    proof (cases "meta_expectedSize d > 4 * 1024 * 1024")
      case True
      with Inr have "snd (processZipNode_try env z tmpdir msg w) = ?w0"
        by (simp add: processZipNode_try_def)
      with in_try w0 show ?thesis by simp
    next
      case False
      obtain entries stream_error where uz: "unzip env (content d) = (entries, stream_error)"
        by (cases "unzip env (content d)")
      obtain c w1 where up: "unpack_entries env tmpdir entries no_capture ?w0 = (c, w1)"
        by (cases "unpack_entries env tmpdir entries no_capture ?w0")
      have t1: "trace w1 = trace ?w0 @ concat (map (entry_events env tmpdir) entries)"
        using unpack_entries_trace [of env tmpdir entries no_capture ?w0] up by simp
      have "Exec j x p \<notin> set (concat (map (entry_events env tmpdir) entries))"
        using concat_entry_events_unpack [of env tmpdir entries] unpack_not_exec by blast
      with w0 t1 have w1: "Exec j x p \<notin> set (trace w1)" by simp
      have cj: "jsonPath c = replace (xmlPath c) ''.xml'' ''.json''"
        using unpack_entries_capture [of env tmpdir entries no_capture ?w0] up
          capture_json [OF no_capture_json, of tmpdir entries] by simp
      have other: "snd (processZipNode_try env z tmpdir msg w) = w1"
        if "stream_error \<noteq> None \<or> \<not> (xml c \<noteq> None \<and> pdf c \<noteq> None)"
        using that Inr False uz up
        by (auto simp add: processZipNode_try_def split: option.splits)
      show ?thesis
      proof (cases "stream_error = None \<and> xml c \<noteq> None \<and> pdf c \<noteq> None")
        case False
        then have "snd (processZipNode_try env z tmpdir msg w) = w1" using other by blast
        with in_try w1 show ?thesis by simp
      next
        case True
        with Inr \<open>\<not> meta_expectedSize d > 4 * 1024 * 1024\<close> uz up
        have eq: "processZipNode_try env z tmpdir msg w = build_and_route env tmpdir msg c w1"
          by (auto simp add: processZipNode_try_def)
        from in_try eq have "Exec j x p \<in> set (trace (snd (build_and_route env tmpdir msg c w1)))"
          by simp
        from build_and_route_exec [OF this w1]
        obtain data w2 post where b:
          "parser_parse env (files w1) (xmlPath c) = Inr (Some data)"
          "j = jsonPath c" "x = xmlPath c" "p = pdfPath c"
          "writeFile env j (stringify env data) (emit [ParserParse x] w1) = (Inr (), w2)"
          "files w2 j = Some (stringify env data)"
          "trace w2 = trace w1 @ [ParserParse x, WriteFile j (stringify env data) True]"
          "build_and_route env tmpdir msg c w1 = run_builder env tmpdir msg c w2"
          "trace (snd (run_builder env tmpdir msg c w2)) = trace w2 @ [Exec j x p] @ post"
          by blast
        have "trace (processZipNode env z tmpdir msg w) = trace w2 @ [Exec j x p] @ (post @ post0)"
          using post0(1) eq b(8,9) by simp
        then show ?thesis using True b cj eq
          by (intro exI [of _ c] exI [of _ data] exI [of _ w1] exI [of _ w2]
              exI [of _ "post @ post0"]) simp
      qed
    qed
  qed
qed

theorem builder_after_json_witness:
  "Exec ''/w/f.json'' ''/w/f.xml'' ''/w/f.pdf''
      \<in> set (trace (processZipNode demo_env ''2'' ''/w'' demo_msg demo_world))
   \<and> Exec ''/w/f.json'' ''/w/f.xml'' ''/w/f.pdf'' \<notin> set (trace demo_world)
   \<and> ''/w/f.json'' = replace ''/w/f.xml'' ''.xml'' ''.json''"
proof -
  have a: "Exec ''/w/f.json'' ''/w/f.xml'' ''/w/f.pdf''
      \<in> set (trace (processZipNode demo_env ''2'' ''/w'' demo_msg demo_world))"
    by (simp add: demo_ok_trace)
  have b: "Exec ''/w/f.json'' ''/w/f.xml'' ''/w/f.pdf'' \<notin> set (trace demo_world)"
    by (simp add: demo_world_def)
  from builder_after_json [OF a b]
  have "''/w/f.json'' = replace ''/w/f.xml'' ''.xml'' ''.json''"
    by (elim exE conjE)
  with a b show ?thesis by blast
qed

end
